theory Spec2Isabelle
  imports Complex_Main "HOL-Library.Sublist"
begin

section \<open>The classify-waste edge function\<close>

text \<open>
  The repository's only logic is the request handler of the edge function
  (\<^verbatim>\<open>serve(async (req) => ...)\<close>): it checks the credential, reads the uploaded image,
  calls the model gateway once, extracts a \<^verbatim>\<open>{category, confidence, reasoning}\<close> object from
  the model's text and answers with a JSON payload.

  The handler is modelled as a function of its inputs (environment, request, behaviour of
  the gateway) that returns the response together with the trace of the calls it made.
  Exceptions are values of a sum type; JavaScript values are a datatype. The built-ins of
  the JavaScript runtime that the handler calls (\<^verbatim>\<open>JSON.parse\<close>, \<^verbatim>\<open>String.prototype.toLowerCase\<close>,
  \<^verbatim>\<open>Math.max\<close>, the conversion to a number, \<^verbatim>\<open>btoa\<close>) are modelled after ECMAScript.

  Two conventions hold throughout. A \<^typ>\<open>char\<close> below \<open>CHR 0xFF\<close> stands for the UTF-16 code unit
  of that number, and \<open>CHR 0xFF\<close> stands for every code unit from 255 on. The handler looks
  only for braces, for the syntax of JSON and for the letters of the five labels, so it
  never tells these units apart; what the model loses is their identity in the strings it
  passes through, the few of them that \<^verbatim>\<open>toLowerCase\<close> maps below 255 (none to a letter of a
  label that could complete a match), and the white space above 255 that the conversion of
  a string to a number trims. A number is NaN, an infinity, or \<open>Fin r\<close>, which
  stands for the binary64 value nearest to the rational \<open>r\<close> (so \<^verbatim>\<open>0.8\<close> reads \<open>Fin (4 / 5)\<close>).
  The handler only tests numbers for zero and compares them with \<open>0\<close> and \<open>1\<close>, which rounding
  to the nearest binary64 value preserves, except where a literal rounds to zero or to an
  infinity: \<open>to_double\<close> makes these two cases explicit. \<^verbatim>\<open>-0\<close> is identified with \<^verbatim>\<open>0\<close>.
  Console output is left out.
\<close>

subsection \<open>JavaScript values\<close>

datatype number = NaN | NegInf | Fin rat | PosInf

datatype jsval =
    Undefined
  | Null
  | Bool bool
  | Number number
  | String string
  | Array "jsval list"
  | Object "(string \<times> jsval) list"

text \<open>The exceptions that can travel through the handler. \<open>Error m\<close> is \<^verbatim>\<open>new Error(m)\<close>;
  the other three are raised by the runtime, whose message texts are engine-specific.\<close>

datatype error = Error string | TypeError | SyntaxError | NetworkError

text \<open>\<^verbatim>\<open>ToBoolean\<close>, as used by \<^verbatim>\<open>!x\<close>, \<^verbatim>\<open>x || y\<close> and \<^verbatim>\<open>if (x)\<close>.\<close>

fun truthy :: "jsval \<Rightarrow> bool" where
  "truthy Undefined = False"
| "truthy Null = False"
| "truthy (Bool b) = b"
| "truthy (Number n) = (n \<noteq> NaN \<and> n \<noteq> Fin 0)"
| "truthy (String s) = (s \<noteq> [])"
| "truthy (Array xs) = True"
| "truthy (Object kvs) = True"

text \<open>\<^verbatim>\<open>a || b\<close> on values.\<close>

definition js_or :: "jsval \<Rightarrow> jsval \<Rightarrow> jsval" where
  "js_or a b = (if truthy a then a else b)"

text \<open>Reading a property \<^verbatim>\<open>v.k\<close> for a key \<open>k\<close> that no built-in prototype defines (the handler
  reads \<^verbatim>\<open>choices\<close>, \<^verbatim>\<open>message\<close>, \<^verbatim>\<open>content\<close>, \<^verbatim>\<open>category\<close>, \<^verbatim>\<open>confidence\<close>, \<^verbatim>\<open>reasoning\<close>): it throws on
  \<^verbatim>\<open>null\<close> and \<^verbatim>\<open>undefined\<close>, finds own properties of an object, and is \<^verbatim>\<open>undefined\<close> otherwise.\<close>

fun get_prop :: "jsval \<Rightarrow> string \<Rightarrow> error + jsval" where
  "get_prop Undefined k = Inl TypeError"
| "get_prop Null k = Inl TypeError"
| "get_prop (Object kvs) k = Inr (case map_of kvs k of None \<Rightarrow> Undefined | Some v \<Rightarrow> v)"
| "get_prop v k = Inr Undefined"

text \<open>The optional chain \<^verbatim>\<open>v?.k\<close>: \<^verbatim>\<open>undefined\<close> when \<open>v\<close> is nullish.\<close>

fun opt_prop :: "jsval \<Rightarrow> string \<Rightarrow> jsval" where
  "opt_prop (Object kvs) k = (case map_of kvs k of None \<Rightarrow> Undefined | Some v \<Rightarrow> v)"
| "opt_prop v k = Undefined"

text \<open>\<^verbatim>\<open>v?.[0]\<close>: the first element of an array, the property \<^verbatim>\<open>"0"\<close> of an object, the first
  code unit of a string.\<close>

fun opt_index0 :: "jsval \<Rightarrow> jsval" where
  "opt_index0 (Array xs) = (case xs of [] \<Rightarrow> Undefined | x # _ \<Rightarrow> x)"
| "opt_index0 (Object kvs) = (case map_of kvs ''0'' of None \<Rightarrow> Undefined | Some v \<Rightarrow> v)"
| "opt_index0 (String s) = (case s of [] \<Rightarrow> Undefined | c # _ \<Rightarrow> String [c])"
| "opt_index0 v = Undefined"

subsection \<open>Strings\<close>

definition code :: "char \<Rightarrow> nat" where
  "code c = of_char c"

text \<open>\<^verbatim>\<open>toLowerCase\<close> on Latin-1: \<^verbatim>\<open>A\<close>--\<^verbatim>\<open>Z\<close> and the accented capitals \<^verbatim>\<open>U+00C0\<close>--\<^verbatim>\<open>U+00DE\<close>
  (without the multiplication sign \<^verbatim>\<open>U+00D7\<close>) move up by 32.\<close>

definition lower_char :: "char \<Rightarrow> char" where
  "lower_char c =
     (if 65 \<le> code c \<and> code c \<le> 90 then char_of (code c + 32)
      else if 192 \<le> code c \<and> code c \<le> 222 \<and> code c \<noteq> 215 then char_of (code c + 32)
      else c)"

definition toLowerCase :: "string \<Rightarrow> string" where
  "toLowerCase s = map lower_char s"

text \<open>\<^verbatim>\<open>s.includes(t)\<close>: \<open>t\<close> occurs in \<open>s\<close> as a contiguous run.\<close>

fun str_includes :: "string \<Rightarrow> string \<Rightarrow> bool" where
  "str_includes [] t = (t = [])"
| "str_includes (c # cs) t = (prefix t (c # cs) \<or> str_includes cs t)"

text \<open>\<^verbatim>\<open>s.substring(0, n)\<close>.\<close>

definition substring0 :: "string \<Rightarrow> nat \<Rightarrow> string" where
  "substring0 s n = take n s"

text \<open>\<^verbatim>\<open>xs.find(p)\<close>: the first element that satisfies \<open>p\<close>, \<^verbatim>\<open>undefined\<close> when there is none.\<close>

fun find_first :: "('a \<Rightarrow> bool) \<Rightarrow> 'a list \<Rightarrow> 'a option" where
  "find_first p [] = None"
| "find_first p (x # xs) = (if p x then Some x else find_first p xs)"

text \<open>The decimal digits of a natural number, as a template literal prints a status code.\<close>

fun show_nat :: "nat \<Rightarrow> string" where
  "show_nat n =
     (if n < 10 then [char_of (48 + n)]
      else show_nat (n div 10) @ [char_of (48 + n mod 10)])"

declare show_nat.simps [simp del]

subsection \<open>Numbers: \<^verbatim>\<open>Math.max\<close>, \<^verbatim>\<open>Math.min\<close> and numeric literals\<close>

fun num_le :: "number \<Rightarrow> number \<Rightarrow> bool" where
  "num_le NaN b = False"
| "num_le a NaN = False"
| "num_le NegInf b = True"
| "num_le a PosInf = True"
| "num_le (Fin x) (Fin y) = (x \<le> y)"
| "num_le a b = False"

text \<open>Both return NaN as soon as one argument is NaN.\<close>

definition Math_max :: "number \<Rightarrow> number \<Rightarrow> number" where
  "Math_max a b = (if a = NaN \<or> b = NaN then NaN else if num_le a b then b else a)"

definition Math_min :: "number \<Rightarrow> number \<Rightarrow> number" where
  "Math_min a b = (if a = NaN \<or> b = NaN then NaN else if num_le a b then a else b)"

definition is_digit :: "char \<Rightarrow> bool" where
  "is_digit c = (48 \<le> code c \<and> code c \<le> 57)"

text \<open>The value of a digit in a base up to 16, if it is one.\<close>

definition digit_of :: "nat \<Rightarrow> char \<Rightarrow> nat option" where
  "digit_of base c =
     (let v = (if 48 \<le> code c \<and> code c \<le> 57 then code c - 48
               else if 97 \<le> code c \<and> code c \<le> 102 then code c - 87
               else if 65 \<le> code c \<and> code c \<le> 70 then code c - 55
               else 16)
      in if v < base then Some v else None)"

fun digits_val :: "nat \<Rightarrow> int \<Rightarrow> string \<Rightarrow> int option" where
  "digits_val base acc [] = Some acc"
| "digits_val base acc (c # cs) =
     (case digit_of base c of
        None \<Rightarrow> None
      | Some d \<Rightarrow> digits_val base (acc * int base + int d) cs)"

text \<open>A non-empty run of digits in the given base, read as a number.\<close>

definition numeral_in :: "nat \<Rightarrow> string \<Rightarrow> int option" where
  "numeral_in base ds = (if ds = [] then None else digits_val base 0 ds)"

text \<open>The exponent part \<^verbatim>\<open>e[+-]?digits\<close> that ends a decimal literal, as a scaling of the
  mantissa; the empty rest scales by one.\<close>

definition exponent_part :: "string \<Rightarrow> (rat \<Rightarrow> rat) option" where
  "exponent_part r =
     (case r of
        [] \<Rightarrow> Some (\<lambda>m. m)
      | c # r1 \<Rightarrow>
          if c = CHR ''e'' \<or> c = CHR ''E'' then
            (case r1 of
               [] \<Rightarrow> None
             | s # r2 \<Rightarrow>
                 if s = CHR ''-'' then
                   map_option (\<lambda>e m. m / 10 ^ nat e) (numeral_in 10 r2)
                 else if s = CHR ''+'' then
                   map_option (\<lambda>e m. m * 10 ^ nat e) (numeral_in 10 r2)
                 else map_option (\<lambda>e m. m * 10 ^ nat e) (numeral_in 10 r1))
          else None)"

text \<open>An unsigned decimal literal \<^verbatim>\<open>int [. frac] [exponent]\<close>. JSON wants an integer part
  without leading zeros and a digit after the point (\<open>strict\<close>); the conversion of a string
  to a number also takes \<^verbatim>\<open>007\<close>, \<^verbatim>\<open>5.\<close> and \<^verbatim>\<open>.5\<close>.\<close>

definition decimal_literal :: "bool \<Rightarrow> string \<Rightarrow> rat option" where
  "decimal_literal strict s =
     (let ip = takeWhile is_digit s;
          r1 = dropWhile is_digit s;
          point = (r1 \<noteq> [] \<and> hd r1 = CHR ''.'');
          fp = (if point then takeWhile is_digit (tl r1) else []);
          r2 = (if point then dropWhile is_digit (tl r1) else r1);
          shape = (if \<not> strict then ip @ fp \<noteq> []
                   else if ip = [] then False
                   else if hd ip = CHR ''0'' \<and> 1 < length ip then False
                   else if point then fp \<noteq> [] else True)
      in if \<not> shape then None
         else case (digits_val 10 0 (ip @ fp), exponent_part r2) of
                (Some m, Some scale) \<Rightarrow> Some (scale (of_int m / 10 ^ length fp))
              | _ \<Rightarrow> None)"

text \<open>The number that the mathematical value of a literal becomes. The least positive
  binary64 value is \<open>2\<^sup>-\<^sup>1\<^sup>0\<^sup>7\<^sup>4\<close>: a value of at most half of it rounds to zero. The greatest
  is \<open>2\<^sup>1\<^sup>0\<^sup>2\<^sup>4 - 2\<^sup>9\<^sup>7\<^sup>1\<close>: a value of at least \<open>2\<^sup>1\<^sup>0\<^sup>2\<^sup>4 - 2\<^sup>9\<^sup>7\<^sup>0\<close> rounds to infinity.\<close>

definition to_double :: "rat \<Rightarrow> number" where
  "to_double r =
     (if \<bar>r\<bar> * 2 ^ 1075 \<le> 1 then Fin 0
      else if 2 ^ 1024 - 2 ^ 970 \<le> \<bar>r\<bar> then (if r < 0 then NegInf else PosInf)
      else Fin r)"

text \<open>A JSON number: an optional minus sign and a strict decimal literal.\<close>

definition json_number :: "string \<Rightarrow> number option" where
  "json_number s =
     (case s of
        [] \<Rightarrow> None
      | c # cs \<Rightarrow>
          if c = CHR ''-'' then map_option (\<lambda>r. to_double (- r)) (decimal_literal True cs)
          else map_option to_double (decimal_literal True s))"

text \<open>White space and line terminators that the conversion of a string to a number trims
  (those below 256).\<close>

definition str_ws :: "char \<Rightarrow> bool" where
  "str_ws c = (code c \<in> {9, 10, 11, 12, 13, 32, 160})"

definition trim :: "string \<Rightarrow> string" where
  "trim s = rev (dropWhile str_ws (rev (dropWhile str_ws s)))"

definition unsigned_number :: "string \<Rightarrow> number" where
  "unsigned_number s =
     (if s = ''Infinity'' then PosInf
      else case decimal_literal False s of None \<Rightarrow> NaN | Some r \<Rightarrow> to_double r)"

definition negate :: "number \<Rightarrow> number" where
  "negate n = (case n of NaN \<Rightarrow> NaN | NegInf \<Rightarrow> PosInf | PosInf \<Rightarrow> NegInf | Fin r \<Rightarrow> Fin (- r))"

definition radix_literal :: "nat \<Rightarrow> string \<Rightarrow> number" where
  "radix_literal base ds =
     (case numeral_in base ds of None \<Rightarrow> NaN | Some n \<Rightarrow> to_double (of_int n))"

text \<open>\<^verbatim>\<open>StringToNumber\<close>: the trimmed text is empty (zero), a hexadecimal, octal or binary
  integer, or a signed decimal literal or \<^verbatim>\<open>Infinity\<close>; anything else is NaN.\<close>

definition StringToNumber :: "string \<Rightarrow> number" where
  "StringToNumber s =
     (case trim s of
        [] \<Rightarrow> Fin 0
      | c # cs \<Rightarrow>
          if c = CHR ''0'' \<and> cs \<noteq> [] \<and> hd cs \<in> {CHR ''x'', CHR ''X''} then radix_literal 16 (tl cs)
          else if c = CHR ''0'' \<and> cs \<noteq> [] \<and> hd cs \<in> {CHR ''o'', CHR ''O''} then radix_literal 8 (tl cs)
          else if c = CHR ''0'' \<and> cs \<noteq> [] \<and> hd cs \<in> {CHR ''b'', CHR ''B''} then radix_literal 2 (tl cs)
          else if c = CHR ''-'' then negate (unsigned_number cs)
          else if c = CHR ''+'' then unsigned_number cs
          else unsigned_number (c # cs))"

subsection \<open>\<^verbatim>\<open>JSON.parse\<close>\<close>

datatype token =
    LBrace | RBrace | LBrack | RBrack | Colon | Comma
  | TStr string | TNum number | TTrue | TFalse | TNull

definition json_ws :: "char \<Rightarrow> bool" where
  "json_ws c = (code c \<in> {9, 10, 13, 32})"

definition punct :: "char \<Rightarrow> token option" where
  "punct c =
     (if c = CHR ''{'' then Some LBrace else if c = CHR ''}'' then Some RBrace
      else if c = CHR ''['' then Some LBrack else if c = CHR '']'' then Some RBrack
      else if c = CHR '':'' then Some Colon else if c = CHR '','' then Some Comma
      else None)"

text \<open>A maximal run of characters between white space, punctuation and quotes is a
  literal name or a number; any other run makes the text invalid.\<close>

definition word_token :: "string \<Rightarrow> token option" where
  "word_token w =
     (if w = ''true'' then Some TTrue
      else if w = ''false'' then Some TFalse
      else if w = ''null'' then Some TNull
      else map_option TNum (json_number w))"

text \<open>The character that follows a backslash in a string.\<close>

definition unescape :: "char \<Rightarrow> char option" where
  "unescape e =
     (if e = CHR 0x22 \<or> e = CHR 0x5C \<or> e = CHR ''/'' then Some e
      else if e = CHR ''b'' then Some (CHR 0x08)
      else if e = CHR ''f'' then Some (CHR 0x0C)
      else if e = CHR ''n'' then Some (CHR 0x0A)
      else if e = CHR ''r'' then Some (CHR 0x0D)
      else if e = CHR ''t'' then Some (CHR 0x09)
      else None)"

text \<open>\<^verbatim>\<open>\uXXXX\<close>: the code unit with that hexadecimal number; one above 255 is read as
  \<open>CHR 0xFF\<close>, by the convention on strings.\<close>

definition unicode_escape :: "string \<Rightarrow> char option" where
  "unicode_escape hex =
     (case numeral_in 16 hex of
        None \<Rightarrow> None
      | Some n \<Rightarrow> Some (char_of (min n 255)))"

datatype mode = Top | InWord string | InStr string

definition emit :: "token option \<Rightarrow> token list option \<Rightarrow> token list option" where
  "emit t rest =
     (case t of
        None \<Rightarrow> None
      | Some tok \<Rightarrow> (case rest of None \<Rightarrow> None | Some toks \<Rightarrow> Some (tok # toks)))"

text \<open>The lexer reads the text once, from left to right; the word or the string it is
  inside of is kept reversed in the mode.\<close>

fun lex :: "mode \<Rightarrow> string \<Rightarrow> token list option" where
  "lex Top [] = Some []"
| "lex (InWord w) [] = emit (word_token (rev w)) (Some [])"
| "lex (InStr acc) [] = None"
| "lex Top (c # cs) =
     (if json_ws c then lex Top cs
      else if punct c \<noteq> None then emit (punct c) (lex Top cs)
      else if c = CHR 0x22 then lex (InStr []) cs
      else lex (InWord [c]) cs)"
| "lex (InWord w) (c # cs) =
     (if json_ws c then emit (word_token (rev w)) (lex Top cs)
      else if punct c \<noteq> None then emit (word_token (rev w)) (emit (punct c) (lex Top cs))
      else if c = CHR 0x22 then emit (word_token (rev w)) (lex (InStr []) cs)
      else lex (InWord (c # w)) cs)"
| "lex (InStr acc) (c # cs) =
     (if c = CHR 0x22 then emit (Some (TStr (rev acc))) (lex Top cs)
      else if c = CHR 0x5C then
        (case cs of
           [] \<Rightarrow> None
         | e # cs1 \<Rightarrow>
             if e = CHR ''u'' then
               (case cs1 of
                  h1 # h2 # h3 # h4 # cs2 \<Rightarrow>
                    (case unicode_escape [h1, h2, h3, h4] of
                       None \<Rightarrow> None
                     | Some x \<Rightarrow> lex (InStr (x # acc)) cs2)
                | _ \<Rightarrow> None)
             else
               (case unescape e of
                  None \<Rightarrow> None
                | Some x \<Rightarrow> lex (InStr (x # acc)) cs1))
      else if code c < 32 then None
      else lex (InStr (c # acc)) cs)"

text \<open>A member added in front of the members that follow it in the text: a later
  duplicate of the key keeps the place of the first and the value of the last.\<close>

definition add_member :: "string \<Rightarrow> jsval \<Rightarrow> (string \<times> jsval) list \<Rightarrow> (string \<times> jsval) list" where
  "add_member k v later =
     (k, (case map_of later k of None \<Rightarrow> v | Some v' \<Rightarrow> v')) # filter (\<lambda>kv. fst kv \<noteq> k) later"

text \<open>The grammar of values over the tokens, by recursive descent. Each function returns
  what it read and the tokens that remain. \<open>parse_elements\<close> reads the elements of an array
  up to the closing bracket, \<open>parse_members\<close> the members of an object up to the closing
  brace. A value takes at least one token, so the comparisons of lengths never fail
  (\<open>parse_elements_unguarded\<close> and \<open>parse_members_unguarded\<close> below state the functions
  without them); they are there to make the recursion evidently terminate.\<close>

fun parse_value :: "token list \<Rightarrow> (jsval \<times> token list) option"
  and parse_elements :: "token list \<Rightarrow> (jsval list \<times> token list) option"
  and parse_members :: "token list \<Rightarrow> ((string \<times> jsval) list \<times> token list) option"
where
  "parse_value [] = None"
| "parse_value (t # ts) =
     (case t of
        TNull \<Rightarrow> Some (Null, ts)
      | TTrue \<Rightarrow> Some (Bool True, ts)
      | TFalse \<Rightarrow> Some (Bool False, ts)
      | TNum n \<Rightarrow> Some (Number n, ts)
      | TStr s \<Rightarrow> Some (String s, ts)
      | LBrack \<Rightarrow>
          (if ts \<noteq> [] \<and> hd ts = RBrack then Some (Array [], tl ts)
           else case parse_elements ts of
                  None \<Rightarrow> None
                | Some (vs, r) \<Rightarrow> Some (Array vs, r))
      | LBrace \<Rightarrow>
          (if ts \<noteq> [] \<and> hd ts = RBrace then Some (Object [], tl ts)
           else case parse_members ts of
                  None \<Rightarrow> None
                | Some (kvs, r) \<Rightarrow> Some (Object kvs, r))
      | _ \<Rightarrow> None)"
| "parse_elements ts =
     (case parse_value ts of
        None \<Rightarrow> None
      | Some (v, r) \<Rightarrow>
          if length r < length ts then
            (case r of
               RBrack # r1 \<Rightarrow> Some ([v], r1)
             | Comma # r1 \<Rightarrow>
                 (case parse_elements r1 of
                    None \<Rightarrow> None
                  | Some (vs, r2) \<Rightarrow> Some (v # vs, r2))
             | _ \<Rightarrow> None)
          else None)"
| "parse_members ts =
     (case ts of
        TStr k # Colon # r \<Rightarrow>
          (case parse_value r of
             None \<Rightarrow> None
           | Some (v, r1) \<Rightarrow>
               if length r1 < length r then
                 (case r1 of
                    RBrace # r2 \<Rightarrow> Some ([(k, v)], r2)
                  | Comma # r2 \<Rightarrow>
                      (case parse_members r2 of
                         None \<Rightarrow> None
                       | Some (kvs, r3) \<Rightarrow> Some (add_member k v kvs, r3))
                  | _ \<Rightarrow> None)
               else None)
      | _ \<Rightarrow> None)"

declare parse_elements.simps [simp del] parse_members.simps [simp del]

text \<open>\<^verbatim>\<open>JSON.parse(text)\<close>: one value and nothing after it, or a \<^verbatim>\<open>SyntaxError\<close>.\<close>

definition JSON_parse :: "string \<Rightarrow> error + jsval" where
  "JSON_parse text =
     (case lex Top text of
        None \<Rightarrow> Inl SyntaxError
      | Some toks \<Rightarrow>
          (case parse_value toks of
             Some (v, []) \<Rightarrow> Inr v
           | _ \<Rightarrow> Inl SyntaxError))"

subsection \<open>Conversion to a number and \<^verbatim>\<open>btoa\<close>\<close>

text \<open>Converting an object to a primitive calls its \<^verbatim>\<open>toString\<close>. A parsed object that has a
  member of that name hides the inherited method behind a value that cannot be called, and
  the conversion throws; joining an array converts its elements.\<close>

fun to_primitive_throws :: "jsval \<Rightarrow> bool" where
  "to_primitive_throws (Object kvs) = (map_of kvs ''toString'' \<noteq> None)"
| "to_primitive_throws (Array xs) = list_ex to_primitive_throws xs"
| "to_primitive_throws v = False"

text \<open>\<^verbatim>\<open>ToNumber\<close>, which \<^verbatim>\<open>Math.max\<close> applies to its arguments. An array is joined with commas
  first: the empty one reads as the empty string, a singleton as its element's string, a
  longer one has a comma in it and is not a number.\<close>

fun ToNumber :: "jsval \<Rightarrow> error + number" where
  "ToNumber Undefined = Inr NaN"
| "ToNumber Null = Inr (Fin 0)"
| "ToNumber (Bool b) = Inr (Fin (if b then 1 else 0))"
| "ToNumber (Number n) = Inr n"
| "ToNumber (String s) = Inr (StringToNumber s)"
| "ToNumber (Object kvs) = (if to_primitive_throws (Object kvs) then Inl TypeError else Inr NaN)"
| "ToNumber (Array []) = Inr (Fin 0)"
| "ToNumber (Array [x]) =
     (if to_primitive_throws x then Inl TypeError
      else case x of
             Undefined \<Rightarrow> Inr (Fin 0)
           | Null \<Rightarrow> Inr (Fin 0)
           | Bool b \<Rightarrow> Inr NaN
           | Number n \<Rightarrow> Inr n
           | String s \<Rightarrow> Inr (StringToNumber s)
           | Array ys \<Rightarrow> ToNumber (Array ys)
           | Object kvs \<Rightarrow> Inr NaN)"
| "ToNumber (Array (x # y # zs)) =
     (if to_primitive_throws (Array (x # y # zs)) then Inl TypeError else Inr NaN)"

definition base64_char :: "nat \<Rightarrow> char" where
  "base64_char n =
     (if n < 26 then char_of (65 + n)
      else if n < 52 then char_of (97 + (n - 26))
      else if n < 62 then char_of (48 + (n - 52))
      else if n = 62 then CHR ''+'' else CHR ''/'')"

text \<open>\<^verbatim>\<open>btoa\<close> of a string of bytes: three bytes become four characters, the last group is
  padded.\<close>

fun btoa :: "string \<Rightarrow> string" where
  "btoa [] = []"
| "btoa [a] =
     [base64_char (code a div 4), base64_char (code a mod 4 * 16), CHR ''='', CHR ''='']"
| "btoa [a, b] =
     [base64_char (code a div 4), base64_char (code a mod 4 * 16 + code b div 16),
      base64_char (code b mod 16 * 4), CHR ''='']"
| "btoa (a # b # c # rest) =
     [base64_char (code a div 4), base64_char (code a mod 4 * 16 + code b div 16),
      base64_char (code b mod 16 * 4 + code c div 64), base64_char (code c mod 64)] @ btoa rest"

subsection \<open>The parse block and the normalization\<close>

text \<open>The handler makes two kinds of calls that the properties below speak about: the
  request to the gateway and the calls of \<^verbatim>\<open>JSON.parse\<close> on the model's text. Both are
  recorded, in order.\<close>

record fetch_request =
  url :: string
  authorization :: string
  image_url :: string

datatype event = Fetch fetch_request | Parse string

text \<open>The regular expression \<^verbatim>\<open>/\{[\s\S]*\}/\<close>. \<open>greedy_close\<close> is \<^verbatim>\<open>[\s\S]*\}\<close> matched at the start
  of a text: the star takes everything and gives characters back until a closing brace
  follows, so the match is the longest prefix that ends with one.\<close>

fun greedy_close :: "string \<Rightarrow> string option" where
  "greedy_close [] = None"
| "greedy_close (c # cs) =
     (case greedy_close cs of
        Some m \<Rightarrow> Some (c # m)
      | None \<Rightarrow> if c = CHR ''}'' then Some [c] else None)"

text \<open>\<^verbatim>\<open>aiResponse.match(/\{[\s\S]*\}/)\<close>: the match at the leftmost position where one exists;
  \<open>Some m\<close> is \<^verbatim>\<open>jsonMatch[0]\<close>, \<open>None\<close> is \<^verbatim>\<open>null\<close>.\<close>

fun jsonMatch :: "string \<Rightarrow> string option" where
  "jsonMatch [] = None"
| "jsonMatch (c # cs) =
     (if c = CHR ''{'' then
        (case greedy_close cs of
           Some m \<Rightarrow> Some (c # m)
         | None \<Rightarrow> jsonMatch cs)
      else jsonMatch cs)"

definition categories :: "string list" where
  "categories = [''Plastic'', ''Paper'', ''Organic'', ''Metal'', ''Glass'']"

definition validCategories :: "string list" where
  "validCategories = [''Plastic'', ''Paper'', ''Organic'', ''Metal'', ''Glass'']"

text \<open>The body of the inner \<^verbatim>\<open>try\<close>: the braces are looked for first; if there is a match only
  the match is parsed, otherwise the whole text.\<close>

definition try_parse :: "string \<Rightarrow> event list \<times> (error + jsval)" where
  "try_parse aiResponse =
     (case jsonMatch aiResponse of
        Some m \<Rightarrow> ([Parse m], JSON_parse m)
      | None \<Rightarrow> ([Parse aiResponse], JSON_parse aiResponse))"

text \<open>The \<^verbatim>\<open>catch (parseError)\<close> branch.\<close>

definition foundCategory :: "string \<Rightarrow> jsval" where
  "foundCategory aiResponse =
     (case find_first (\<lambda>cat. str_includes (toLowerCase aiResponse) (toLowerCase cat)) categories of
        None \<Rightarrow> Undefined
      | Some cat \<Rightarrow> String cat)"

definition fallback :: "string \<Rightarrow> jsval" where
  "fallback aiResponse =
     Object [(''category'', js_or (foundCategory aiResponse) (String ''Plastic'')),
             (''confidence'', Number (Fin (3 / 4))),
             (''reasoning'', String (substring0 aiResponse 200))]"

text \<open>The whole \<^verbatim>\<open>try\<close>/\<^verbatim>\<open>catch\<close>: the value of \<^verbatim>\<open>result\<close> after it, for a text.\<close>

definition parse_block :: "string \<Rightarrow> event list \<times> jsval" where
  "parse_block aiResponse =
     (case try_parse aiResponse of
        (tr, Inr v) \<Rightarrow> (tr, v)
      | (tr, Inl parseError) \<Rightarrow> (tr, fallback aiResponse))"

text \<open>\<^verbatim>\<open>v?.toLowerCase()\<close>: \<^verbatim>\<open>undefined\<close> on a nullish value, the method on a string; any other
  value has no such method and the call throws.\<close>

fun opt_toLowerCase :: "jsval \<Rightarrow> error + jsval" where
  "opt_toLowerCase Undefined = Inr Undefined"
| "opt_toLowerCase Null = Inr Undefined"
| "opt_toLowerCase (String s) = Inr (String (toLowerCase s))"
| "opt_toLowerCase v = Inl TypeError"

definition normalizedCategory :: "jsval \<Rightarrow> error + jsval" where
  "normalizedCategory result =
     (case get_prop result ''category'' of
        Inl e \<Rightarrow> Inl e
      | Inr c \<Rightarrow>
          (case opt_toLowerCase c of
             Inl e \<Rightarrow> Inl e
           | Inr l \<Rightarrow>
               Inr (js_or (case find_first (\<lambda>cat. String (toLowerCase cat) = l) validCategories of
                             None \<Rightarrow> Undefined
                           | Some cat \<Rightarrow> String cat) c)))"

text \<open>\<^verbatim>\<open>Math.min(Math.max(c || 0.8, 0), 1)\<close> for the value \<open>c\<close> of \<^verbatim>\<open>result.confidence\<close>.\<close>

definition clamp_confidence :: "jsval \<Rightarrow> error + number" where
  "clamp_confidence c =
     (case ToNumber (js_or c (Number (Fin (4 / 5)))) of
        Inl e \<Rightarrow> Inl e
      | Inr n \<Rightarrow> Inr (Math_min (Math_max n (Fin 0)) (Fin 1)))"

text \<open>The object handed to \<^verbatim>\<open>JSON.stringify\<close> for the success response. (Serialising it
  drops a member that is \<^verbatim>\<open>undefined\<close> and writes NaN as \<^verbatim>\<open>null\<close>.)\<close>

record payload =
  category :: jsval
  confidence :: number
  reasoning :: jsval

definition normalize :: "jsval \<Rightarrow> error + payload" where
  "normalize result =
     (case normalizedCategory result of
        Inl e \<Rightarrow> Inl e
      | Inr cat \<Rightarrow>
          (case get_prop result ''confidence'' of
             Inl e \<Rightarrow> Inl e
           | Inr c \<Rightarrow>
               (case clamp_confidence c of
                  Inl e \<Rightarrow> Inl e
                | Inr conf \<Rightarrow>
                    (case get_prop result ''reasoning'' of
                       Inl e \<Rightarrow> Inl e
                     | Inr r \<Rightarrow>
                         Inr \<lparr>category = cat, confidence = conf,
                              reasoning = js_or r (String ''Classification based on visual analysis'')\<rparr>))))"

text \<open>The Result Normalizer of the specification: the parse block followed by the
  normalization, for the text of a completion.\<close>

definition normalizer :: "string \<Rightarrow> error + payload" where
  "normalizer aiResponse = normalize (snd (parse_block aiResponse))"

subsection \<open>The handler\<close>

record image_file =
  ftype :: string
  bytes :: string

text \<open>An entry of the form data is a text or a file.\<close>

datatype form_value = FormText string | FormFile image_file

text \<open>A request: \<^verbatim>\<open>req.method\<close> and what \<^verbatim>\<open>req.formData()\<close> resolves to, the entries in order,
  or the exception it rejects with when the body is not form data.\<close>

record request =
  req_method :: string
  formData :: "error + (string \<times> form_value) list"

text \<open>What \<^verbatim>\<open>fetch\<close> and the reading of the body come to: an exception (the network failed),
  or a status with the text of the body.\<close>

datatype fetch_result = Rejected error | Responded nat string

text \<open>The three shapes of body the handler sends, besides the empty one: \<^verbatim>\<open>{error: m}\<close>,
  \<^verbatim>\<open>{error: e.message, details: 'Failed to classify waste. Please try again.'}\<close> for a caught
  exception \<open>e\<close>, and the classification.\<close>

datatype body = Empty | ErrorBody string | Failure error | Classified payload

record response =
  status :: nat
  headers :: "(string \<times> string) list"
  body :: body

definition corsHeaders :: "(string \<times> string) list" where
  "corsHeaders =
     [(''Access-Control-Allow-Origin'', ''*''),
      (''Access-Control-Allow-Headers'', ''authorization, x-client-info, apikey, content-type'')]"

definition json_response :: "nat \<Rightarrow> body \<Rightarrow> response" where
  "json_response st b =
     \<lparr>status = st, headers = corsHeaders @ [(''Content-Type'', ''application/json'')], body = b\<rparr>"

text \<open>\<^verbatim>\<open>response.ok\<close>.\<close>

definition ok :: "nat \<Rightarrow> bool" where
  "ok st = (200 \<le> st \<and> st \<le> 299)"

text \<open>The request to the gateway; of its body only the image is not constant.\<close>

definition gateway_request :: "string \<Rightarrow> image_file \<Rightarrow> fetch_request" where
  "gateway_request LOVABLE_API_KEY imageFile =
     (let base64Image = btoa (bytes imageFile);
          imageDataUrl = ''data:'' @ ftype imageFile @ '';base64,'' @ base64Image
      in \<lparr>url = ''https://ai.gateway.lovable.dev/v1/chat/completions'',
          authorization = ''Bearer '' @ LOVABLE_API_KEY,
          image_url = imageDataUrl\<rparr>)"

text \<open>From the successful response of the gateway to the answer: the body is parsed, the
  text of the first choice is taken out, parsed and normalized.\<close>

definition from_completion :: "string \<Rightarrow> event list \<times> (error + response)" where
  "from_completion text =
     (case JSON_parse text of
        Inl e \<Rightarrow> ([], Inl e)
      | Inr data \<Rightarrow>
          (case get_prop data ''choices'' of
             Inl e \<Rightarrow> ([], Inl e)
           | Inr choices \<Rightarrow>
               (let aiResponse = opt_prop (opt_prop (opt_index0 choices) ''message'') ''content''
                in if \<not> truthy aiResponse then ([], Inl (Error ''No response from AI''))
                   else case aiResponse of
                          String s \<Rightarrow>
                            (case parse_block s of
                               (tr, result) \<Rightarrow>
                                 (case normalize result of
                                    Inl e \<Rightarrow> (tr, Inl e)
                                  | Inr p \<Rightarrow> (tr, Inr (json_response 200 (Classified p)))))
                        | _ \<Rightarrow> ([], Inl TypeError))))"

text \<open>The body of the outer \<^verbatim>\<open>try\<close>. \<open>env\<close> is \<^verbatim>\<open>Deno.env.get('LOVABLE_API_KEY')\<close>, \<open>net\<close> the
  gateway. An image entry that is a non-empty text has no \<^verbatim>\<open>arrayBuffer\<close> method.\<close>

definition try_body ::
  "string option \<Rightarrow> request \<Rightarrow> (fetch_request \<Rightarrow> fetch_result) \<Rightarrow> event list \<times> (error + response)" where
  "try_body env req net =
     (case env of
        None \<Rightarrow> ([], Inl (Error ''LOVABLE_API_KEY not configured''))
      | Some LOVABLE_API_KEY \<Rightarrow>
          if LOVABLE_API_KEY = [] then ([], Inl (Error ''LOVABLE_API_KEY not configured''))
          else
            (case formData req of
               Inl e \<Rightarrow> ([], Inl e)
             | Inr entries \<Rightarrow>
                 (case map_of entries ''image'' of
                    None \<Rightarrow> ([], Inr (json_response 400 (ErrorBody ''No image provided'')))
                  | Some (FormText t) \<Rightarrow>
                      if t = [] then ([], Inr (json_response 400 (ErrorBody ''No image provided'')))
                      else ([], Inl TypeError)
                  | Some (FormFile imageFile) \<Rightarrow>
                      (let call = gateway_request LOVABLE_API_KEY imageFile
                       in case net call of
                            Rejected e \<Rightarrow> ([Fetch call], Inl e)
                          | Responded st text \<Rightarrow>
                              if \<not> ok st then
                                (if st = 429 then
                                   ([Fetch call],
                                    Inr (json_response 429
                                          (ErrorBody ''Rate limit exceeded. Please try again later.'')))
                                 else if st = 402 then
                                   ([Fetch call],
                                    Inr (json_response 402
                                          (ErrorBody ''AI credits exhausted. Please add credits to your workspace.'')))
                                 else ([Fetch call], Inl (Error (''AI Gateway error: '' @ show_nat st))))
                              else
                                (case from_completion text of
                                   (tr, r) \<Rightarrow> (Fetch call # tr, r))))))"

text \<open>The handler: the preflight answer, or the body of the \<^verbatim>\<open>try\<close> with every exception
  turned into a 500.\<close>

definition handler ::
  "string option \<Rightarrow> request \<Rightarrow> (fetch_request \<Rightarrow> fetch_result) \<Rightarrow> event list \<times> response" where
  "handler env req net =
     (if req_method req = ''OPTIONS'' then ([], \<lparr>status = 200, headers = corsHeaders, body = Empty\<rparr>)
      else case try_body env req net of
             (tr, Inr r) \<Rightarrow> (tr, r)
           | (tr, Inl e) \<Rightarrow> (tr, json_response 500 (Failure e)))"

text \<open>The gateway calls in a trace.\<close>

definition fetches :: "event list \<Rightarrow> fetch_request list" where
  "fetches tr = concat (map (\<lambda>ev. case ev of Fetch c \<Rightarrow> [c] | Parse s \<Rightarrow> []) tr)"

subsection \<open>The order of the tiers as the specification words it\<close>

text \<open>The specification's Result Normalizer tries the whole text first ("strict parse"),
  then the text between the braces ("embedded-object scan"), then the keywords. This
  definition follows those words, for the comparison with \<open>parse_block\<close>.\<close>

definition spec_parse_block :: "string \<Rightarrow> event list \<times> jsval" where
  "spec_parse_block text =
     (case JSON_parse text of
        Inr v \<Rightarrow> ([Parse text], v)
      | Inl e \<Rightarrow>
          (case jsonMatch text of
             None \<Rightarrow> ([Parse text], fallback text)
           | Some m \<Rightarrow>
               (case JSON_parse m of
                  Inr v \<Rightarrow> ([Parse text, Parse m], v)
                | Inl e' \<Rightarrow> ([Parse text, Parse m], fallback text))))"

subsection \<open>Sample inputs\<close>

text \<open>Concrete requests and gateways, at which the theorems below are instantiated.\<close>

definition sample_image :: image_file where
  "sample_image = \<lparr>ftype = ''image/png'', bytes = ''Man''\<rparr>"

definition upload :: request where
  "upload = \<lparr>req_method = ''POST'', formData = Inr [(''image'', FormFile sample_image)]\<rparr>"

definition no_image_request :: request where
  "no_image_request = \<lparr>req_method = ''POST'', formData = Inr []\<rparr>"

definition preflight :: request where
  "preflight = \<lparr>req_method = ''OPTIONS'', formData = Inr []\<rparr>"

definition gateway_down :: "fetch_request \<Rightarrow> fetch_result" where
  "gateway_down call = Rejected NetworkError"

definition gateway_status :: "nat \<Rightarrow> fetch_request \<Rightarrow> fetch_result" where
  "gateway_status st call = Responded st ''upstream says no''"

section \<open>Properties\<close>

subsection \<open>Auxiliary facts\<close>

text \<open>Numbers between \<open>2\<^sup>-\<^sup>1\<^sup>6\<close> and \<open>2\<^sup>1\<^sup>6\<close> are far from the bounds of \<open>to_double\<close>; testing for
  them first keeps the evaluation of everyday literals short.\<close>

lemma to_double_code [code]:
  "to_double r =
     (if r = 0 then Fin 0
      else if 1 \<le> \<bar>r\<bar> * 65536 \<and> \<bar>r\<bar> \<le> 65536 then Fin r
      else if \<bar>r\<bar> * 2 ^ 1075 \<le> 1 then Fin 0
      else if 2 ^ 1024 - 2 ^ 970 \<le> \<bar>r\<bar> then (if r < 0 then NegInf else PosInf)
      else Fin r)"
proof -
  have small: "\<not> \<bar>r\<bar> * 2 ^ 1075 \<le> 1" if "1 \<le> \<bar>r\<bar> * 65536"
  proof -
    have "\<bar>r\<bar> * 65536 < \<bar>r\<bar> * 2 ^ 1075"
      using that by (intro mult_strict_left_mono) auto
    with that show ?thesis by linarith
  qed
  have big: "\<not> 2 ^ 1024 - 2 ^ 970 \<le> \<bar>r\<bar>" if "\<bar>r\<bar> \<le> 65536"
  proof -
    have "(65536 :: rat) < 2 ^ 1024 - 2 ^ 970" by simp
    with that show ?thesis by linarith
  qed
  show ?thesis using small big by (auto simp: to_double_def)
qed

text \<open>The parser of values consumes tokens, so its tests on the lengths are redundant.\<close>

lemma parse_value_consumes: "parse_value ts = Some (v, r) \<Longrightarrow> length r < length ts"
  and parse_elements_consumes: "parse_elements ts = Some (vs, r) \<Longrightarrow> length r < length ts"
  and parse_members_consumes: "parse_members ts = Some (kvs, r) \<Longrightarrow> length r < length ts"
proof (induction ts and ts and ts arbitrary: v r and vs r and kvs r
        rule: parse_value_parse_elements_parse_members.induct)
  case 1
  then show ?case by simp
next
  case (2 t ts)
  show ?case
  proof (cases t)
    case LBrack
    show ?thesis
    proof (cases "ts \<noteq> [] \<and> hd ts = RBrack")
      case True
      with 2(3) LBrack show ?thesis by (cases ts) auto
    next
      case False
      with 2(3) LBrack obtain vs' where "parse_elements ts = Some (vs', r)"
        by (auto split: option.splits)
      from 2(2)[OF LBrack False this] show ?thesis by simp
    qed
  next
    case LBrace
    show ?thesis
    proof (cases "ts \<noteq> [] \<and> hd ts = RBrace")
      case True
      with 2(3) LBrace show ?thesis by (cases ts) auto
    next
      case False
      with 2(3) LBrace obtain kvs' where "parse_members ts = Some (kvs', r)"
        by (auto split: option.splits)
      from 2(1)[OF LBrace False this] show ?thesis by simp
    qed
  qed (use 2(3) in auto)
next
  case (3 ts)
  note e = parse_elements.simps[of ts]
  from 3(3) obtain v' r0 where v: "parse_value ts = Some (v', r0)" and lt: "length r0 < length ts"
    by (subst (asm) e) (auto split: option.splits if_splits)
  show ?case
  proof (cases r0)
    case Nil
    with 3(3) v lt show ?thesis by (subst (asm) e) simp
  next
    case (Cons t r1)
    show ?thesis
    proof (cases t)
      case RBrack
      with 3(3) v lt Cons show ?thesis by (subst (asm) e) auto
    next
      case Comma
      with 3(3) v lt Cons obtain vs' where pe: "parse_elements r1 = Some (vs', r)"
        by (subst (asm) e) (auto split: option.splits)
      from 3(2)[OF v refl lt Cons Comma pe] lt Cons show ?thesis by simp
    qed (use 3(3) v lt Cons in \<open>(subst (asm) e, simp)+\<close>)
  qed
next
  case (4 ts)
  note e = parse_members.simps[of ts]
  from 4(3) obtain k r0 where ts: "ts = TStr k # Colon # r0"
    by (subst (asm) e) (auto split: list.splits token.splits)
  note e' = parse_members.simps[of "TStr k # Colon # r0"]
  from 4(3) ts obtain v' r1 where v: "parse_value r0 = Some (v', r1)" and lt: "length r1 < length r0"
    by (subst (asm) e) (auto split: option.splits if_splits)
  show ?case
  proof (cases r1)
    case Nil
    with 4(3) ts v lt show ?thesis by (subst (asm) e) simp
  next
    case (Cons t r2)
    show ?thesis
    proof (cases t)
      case RBrace
      with 4(3) ts v lt Cons show ?thesis by (subst (asm) e) auto
    next
      case Comma
      with 4(3) ts v lt Cons obtain kvs' where pm: "parse_members r2 = Some (kvs', r)"
        by (subst (asm) e) (auto split: option.splits)
      from 4(2)[OF ts refl refl refl v refl lt Cons Comma pm] lt Cons ts show ?thesis by simp
    qed (use 4(3) ts v lt Cons in \<open>(subst (asm) e, simp)+\<close>)
  qed
qed


lemma parse_elements_unguarded:
  "parse_elements ts =
     (case parse_value ts of
        None \<Rightarrow> None
      | Some (v, r) \<Rightarrow>
          (case r of
             RBrack # r1 \<Rightarrow> Some ([v], r1)
           | Comma # r1 \<Rightarrow>
               (case parse_elements r1 of
                  None \<Rightarrow> None
                | Some (vs, r2) \<Rightarrow> Some (v # vs, r2))
           | _ \<Rightarrow> None))"
proof (cases "parse_value ts")
  case None
  then show ?thesis by (subst parse_elements.simps) simp
next
  case (Some p)
  obtain v r where p: "p = (v, r)" by (cases p)
  with Some have "length r < length ts" by (simp add: parse_value_consumes)
  with Some p show ?thesis by (subst parse_elements.simps) simp
qed

lemma parse_members_unguarded:
  "parse_members (TStr k # Colon # ts) =
     (case parse_value ts of
        None \<Rightarrow> None
      | Some (v, r) \<Rightarrow>
          (case r of
             RBrace # r1 \<Rightarrow> Some ([(k, v)], r1)
           | Comma # r1 \<Rightarrow>
               (case parse_members r1 of
                  None \<Rightarrow> None
                | Some (kvs, r2) \<Rightarrow> Some (add_member k v kvs, r2))
           | _ \<Rightarrow> None))"
proof (cases "parse_value ts")
  case None
  then show ?thesis by (subst parse_members.simps) simp
next
  case (Some p)
  obtain v r where p: "p = (v, r)" by (cases p)
  with Some have "length r < length ts" by (simp add: parse_value_consumes)
  with Some p show ?thesis by (subst parse_members.simps) simp
qed


lemma str_includes_sublist: "str_includes s t \<longleftrightarrow> sublist t s"
  by (induction s) (simp_all add: sublist_Cons_right)

lemma find_first_None: "find_first p xs = None \<longleftrightarrow> (\<forall>x\<in>set xs. \<not> p x)"
  by (induction xs) auto

lemma find_first_Some:
  "find_first p xs = Some x \<Longrightarrow> \<exists>i<length xs. xs ! i = x \<and> p x \<and> (\<forall>j<i. \<not> p (xs ! j))"
proof (induction xs)
  case Nil
  then show ?case by simp
next
  case (Cons y ys)
  show ?case
  proof (cases "p y")
    case True
    with Cons.prems have "y = x" by simp
    with True show ?thesis by (intro exI[of _ 0]) simp
  next
    case False
    with Cons.prems have "find_first p ys = Some x" by simp
    from Cons.IH[OF this] obtain i where i: "i < length ys" "ys ! i = x" "p x" "\<forall>j<i. \<not> p (ys ! j)"
      by blast
    have "\<forall>j<Suc i. \<not> p ((y # ys) ! j)"
      using False i(4) by (auto simp: less_Suc_eq_0_disj)
    with i show ?thesis by (intro exI[of _ "Suc i"]) simp
  qed
qed

lemma lower_labels:
  "toLowerCase ''Plastic'' = ''plastic''" "toLowerCase ''Paper'' = ''paper''"
  "toLowerCase ''Organic'' = ''organic''" "toLowerCase ''Metal'' = ''metal''"
  "toLowerCase ''Glass'' = ''glass''"
  by code_simp+

lemma find_first_mem: "find_first p xs = Some x \<Longrightarrow> x \<in> set xs \<and> p x"
  by (induction xs) (auto split: if_splits)

lemma valid_cases:
  assumes "cat \<in> set validCategories"
  obtains "cat = ''Plastic''" | "cat = ''Paper''" | "cat = ''Organic''" | "cat = ''Metal''" | "cat = ''Glass''"
  using assms unfolding validCategories_def by fastforce

lemma find_valid_labels:
  "find_first (\<lambda>c. String (toLowerCase c) = String (toLowerCase ''Plastic'')) validCategories = Some ''Plastic''"
  "find_first (\<lambda>c. String (toLowerCase c) = String (toLowerCase ''Paper'')) validCategories = Some ''Paper''"
  "find_first (\<lambda>c. String (toLowerCase c) = String (toLowerCase ''Organic'')) validCategories = Some ''Organic''"
  "find_first (\<lambda>c. String (toLowerCase c) = String (toLowerCase ''Metal'')) validCategories = Some ''Metal''"
  "find_first (\<lambda>c. String (toLowerCase c) = String (toLowerCase ''Glass'')) validCategories = Some ''Glass''"
  by (simp_all add: validCategories_def lower_labels)

lemma valid_nonempty: "cat \<in> set validCategories \<Longrightarrow> cat \<noteq> []"
  by (erule valid_cases) simp_all

lemma find_valid_unique:
  assumes "cat \<in> set validCategories"
  shows "find_first (\<lambda>c. String (toLowerCase c) = String (toLowerCase cat)) validCategories = Some cat"
  using assms by (rule valid_cases) (simp_all only: find_valid_labels)

lemma found_nonempty: "find_first p validCategories = Some cat \<Longrightarrow> cat \<noteq> []"
  by (drule find_first_mem) (simp add: valid_nonempty)

lemma normalizedCategory_String:
  assumes "get_prop result ''category'' = Inr (String s)"
  shows "normalizedCategory result =
           Inr (case find_first (\<lambda>c. String (toLowerCase c) = String (toLowerCase s)) validCategories of
                  None \<Rightarrow> String s | Some cat \<Rightarrow> String cat)"
proof (cases "find_first (\<lambda>c. String (toLowerCase c) = String (toLowerCase s)) validCategories")
  case None
  have "normalizedCategory result = Inr (js_or Undefined (String s))"
    unfolding normalizedCategory_def assms by (simp only: sum.case opt_toLowerCase.simps None option.case)
  then show ?thesis unfolding None by (simp add: js_or_def)
next
  case (Some cat)
  then have "cat \<noteq> []" by (rule found_nonempty)
  have "normalizedCategory result = Inr (js_or (String cat) (String s))"
    unfolding normalizedCategory_def assms by (simp only: sum.case opt_toLowerCase.simps Some option.case)
  then show ?thesis unfolding Some using \<open>cat \<noteq> []\<close> by (simp add: js_or_def)
qed

lemma parse_block_fallback:
  assumes "isl (JSON_parse a)" and "\<forall>m. jsonMatch a = Some m \<longrightarrow> isl (JSON_parse m)"
  shows "snd (parse_block a) = fallback a"
proof (cases "jsonMatch a")
  case None
  with assms(1) show ?thesis
    by (cases "JSON_parse a") (simp_all add: parse_block_def try_parse_def)
next
  case (Some m)
  with assms(2) have "isl (JSON_parse m)" by simp
  with Some show ?thesis
    by (cases "JSON_parse m") (simp_all add: parse_block_def try_parse_def)
qed

lemma categories_valid: "categories = validCategories"
  by (simp add: categories_def validCategories_def)

lemma clamp_three_quarters: "clamp_confidence (Number (Fin (3 / 4))) = Inr (Fin (3 / 4))"
  by (simp add: clamp_confidence_def js_or_def Math_max_def Math_min_def)

lemma normalize_fallback_shape:
  assumes "c \<in> set validCategories" and "r \<noteq> []"
  shows "normalize (Object [(''category'', String c), (''confidence'', Number (Fin (3 / 4))),
                            (''reasoning'', String r)])
         = Inr \<lparr>category = String c, confidence = Fin (3 / 4), reasoning = String r\<rparr>"
proof -
  let ?R = "Object [(''category'', String c), (''confidence'', Number (Fin (3 / 4))),
                    (''reasoning'', String r)]"
  have g: "get_prop ?R ''category'' = Inr (String c)" by simp
  have "normalizedCategory ?R = Inr (String c)"
    unfolding normalizedCategory_String[OF g] find_valid_unique[OF assms(1)] by simp
  then show ?thesis
    using assms(2) by (simp add: normalize_def clamp_three_quarters js_or_def)
qed

lemma fallback_category:
  obtains c where "js_or (foundCategory a) (String ''Plastic'') = String c"
    and "c \<in> set validCategories"
    and "(\<exists>i<length categories. c = categories ! i
            \<and> sublist (toLowerCase c) (toLowerCase a)
            \<and> (\<forall>j<i. \<not> sublist (toLowerCase (categories ! j)) (toLowerCase a)))
         \<or> (c = ''Plastic'' \<and> (\<forall>cat\<in>set categories. \<not> sublist (toLowerCase cat) (toLowerCase a)))"
proof (cases "find_first (\<lambda>cat. str_includes (toLowerCase a) (toLowerCase cat)) categories")
  case None
  have 1: "js_or (foundCategory a) (String ''Plastic'') = String ''Plastic''"
    by (simp add: foundCategory_def None js_or_def)
  have 2: "''Plastic'' \<in> set validCategories" by (simp add: validCategories_def)
  from None have 3: "\<forall>cat\<in>set categories. \<not> sublist (toLowerCase cat) (toLowerCase a)"
    by (simp add: find_first_None str_includes_sublist)
  from 1 2 3 that show ?thesis by simp
next
  case (Some cat)
  from find_first_Some[OF Some] obtain i where i: "i < length categories" "categories ! i = cat"
    "str_includes (toLowerCase a) (toLowerCase cat)"
    "\<forall>j<i. \<not> str_includes (toLowerCase a) (toLowerCase (categories ! j))"
    by (elim exE conjE)
  from Some have mem: "cat \<in> set validCategories"
    by (simp add: find_first_mem categories_valid[symmetric])
  then have "cat \<noteq> []" by (rule valid_nonempty)
  then have 1: "js_or (foundCategory a) (String ''Plastic'') = String cat"
    by (simp add: foundCategory_def Some js_or_def)
  have 3: "\<exists>i<length categories. cat = categories ! i
            \<and> sublist (toLowerCase cat) (toLowerCase a)
            \<and> (\<forall>j<i. \<not> sublist (toLowerCase (categories ! j)) (toLowerCase a))"
    using i by (intro exI[of _ i]) (simp add: str_includes_sublist)
  from 1 mem 3 that show ?thesis by simp
qed

lemma greedy_close_None: "greedy_close s = None \<longleftrightarrow> CHR ''}'' \<notin> set s"
proof (induction s)
  case Nil
  show ?case by simp
next
  case (Cons c cs)
  show ?case
  proof (cases "greedy_close cs")
    case None
    with Cons show ?thesis by simp
  next
    case (Some m)
    with Cons show ?thesis by simp
  qed
qed

lemma greedy_close_last:
  "CHR ''}'' \<notin> set post \<Longrightarrow> greedy_close (mid @ CHR ''}'' # post) = Some (mid @ [CHR ''}''])"
proof (induction mid)
  case Nil
  then have "greedy_close post = None" by (simp add: greedy_close_None)
  then show ?case by simp
next
  case (Cons c mid)
  then show ?case by simp
qed

lemma jsonMatch_first_last:
  "CHR ''{'' \<notin> set pre \<Longrightarrow> CHR ''}'' \<notin> set post \<Longrightarrow>
   jsonMatch (pre @ CHR ''{'' # mid @ CHR ''}'' # post) = Some (CHR ''{'' # mid @ [CHR ''}''])"
proof (induction pre)
  case Nil
  then show ?case by (simp add: greedy_close_last)
next
  case (Cons c pre)
  then have "c \<noteq> CHR ''{''" by auto
  with Cons show ?case by simp
qed

lemma jsonMatch_no_braces:
  "(\<forall>pre mid post. s \<noteq> pre @ CHR ''{'' # mid @ CHR ''}'' # post) \<Longrightarrow> jsonMatch s = None"
proof (induction s)
  case Nil
  then show ?case by simp
next
  case (Cons c cs)
  have tail: "\<forall>pre mid post. cs \<noteq> pre @ CHR ''{'' # mid @ CHR ''}'' # post"
  proof (intro allI notI)
    fix pre mid post assume "cs = pre @ CHR ''{'' # mid @ CHR ''}'' # post"
    then have "c # cs = (c # pre) @ CHR ''{'' # mid @ CHR ''}'' # post" by simp
    with Cons.prems show False by blast
  qed
  show ?case
  proof (cases "c = CHR ''{''")
    case False
    with Cons.IH[OF tail] show ?thesis by simp
  next
    case True
    have "greedy_close cs = None"
    proof (rule ccontr)
      assume "greedy_close cs \<noteq> None"
      then have "CHR ''}'' \<in> set cs" by (simp add: greedy_close_None)
      then obtain mid post where "cs = mid @ CHR ''}'' # post" by (auto simp: in_set_conv_decomp)
      with True have "c # cs = [] @ CHR ''{'' # mid @ CHR ''}'' # post" by simp
      with Cons.prems show False by blast
    qed
    with True Cons.IH[OF tail] show ?thesis by simp
  qed
qed

lemma brace_decomposition:
  assumes "s = pre @ CHR ''{'' # mid @ CHR ''}'' # post"
  shows "\<exists>pre' mid' post'. s = pre' @ CHR ''{'' # mid' @ CHR ''}'' # post'
           \<and> CHR ''{'' \<notin> set pre' \<and> CHR ''}'' \<notin> set post'"
proof -
  have "CHR ''{'' \<in> set s" using assms by simp
  then obtain p r where pr: "s = p @ CHR ''{'' # r" "CHR ''{'' \<notin> set p"
    by (meson split_list_first)
  have "CHR ''}'' \<in> set r"
  proof -
    from pr(1) assms have eq: "p @ CHR ''{'' # r = pre @ CHR ''{'' # mid @ CHR ''}'' # post" by simp
    then obtain us where us: "(p = pre @ us \<and> us @ CHR ''{'' # r = CHR ''{'' # mid @ CHR ''}'' # post)
        \<or> (p @ us = pre \<and> CHR ''{'' # r = us @ CHR ''{'' # mid @ CHR ''}'' # post)"
      by (auto simp: append_eq_append_conv2)
    then show ?thesis
    proof (elim disjE conjE)
      assume a: "p = pre @ us" "us @ CHR ''{'' # r = CHR ''{'' # mid @ CHR ''}'' # post"
      show ?thesis
      proof (cases us)
        case Nil
        with a(2) show ?thesis by simp
      next
        case (Cons u us')
        with a(2) have "u = CHR ''{''" by simp
        with Cons a(1) pr(2) show ?thesis by simp
      qed
    next
      assume a: "p @ us = pre" "CHR ''{'' # r = us @ CHR ''{'' # mid @ CHR ''}'' # post"
      show ?thesis
      proof (cases us)
        case Nil
        with a(2) show ?thesis by simp
      next
        case (Cons u us')
        with a(2) have "r = us' @ CHR ''{'' # mid @ CHR ''}'' # post" by simp
        then show ?thesis by simp
      qed
    qed
  qed
  then obtain m q where mq: "r = m @ CHR ''}'' # q" "CHR ''}'' \<notin> set q"
    by (meson split_list_last)
  with pr show ?thesis by blast
qed

lemma no_open_brace:
  "CHR ''{'' \<notin> set s \<Longrightarrow> \<forall>pre mid post. s \<noteq> pre @ CHR ''{'' # mid @ CHR ''}'' # post"
  by (intro allI notI) simp


lemma fetches_simps:
  "fetches [] = []" "fetches (Fetch c # tr) = c # fetches tr" "fetches (Parse t # tr) = fetches tr"
  by (simp_all add: fetches_def)

lemma fetch_in_fetches: "Fetch c \<in> set tr \<Longrightarrow> c \<in> set (fetches tr)"
proof (induction tr)
  case Nil
  then show ?case by simp
next
  case (Cons a tr)
  then show ?case by (cases a) (auto simp: fetches_simps)
qed

lemma parse_block_trace: "fetches (fst (parse_block s)) = []"
proof (cases "jsonMatch s")
  case None
  then show ?thesis
    by (cases "JSON_parse s") (simp_all add: parse_block_def try_parse_def fetches_simps)
next
  case (Some m)
  then show ?thesis
    by (cases "JSON_parse m") (simp_all add: parse_block_def try_parse_def fetches_simps)
qed

lemma from_completion_trace: "fetches (fst (from_completion text)) = []"
proof (cases "JSON_parse text")
  case (Inl e)
  then show ?thesis by (simp add: from_completion_def fetches_simps)
next
  case (Inr data)
  show ?thesis
  proof (cases "get_prop data ''choices''")
    case (Inl e)
    with Inr show ?thesis by (simp add: from_completion_def fetches_simps)
  next
    case choices: (Inr choices)
    let ?ai = "opt_prop (opt_prop (opt_index0 choices) ''message'') ''content''"
    show ?thesis
    proof (cases "truthy ?ai")
      case False
      with Inr choices show ?thesis by (simp add: from_completion_def fetches_simps)
    next
      case True
      show ?thesis
      proof (cases "?ai")
        case (String s)
        obtain tr result where pb: "parse_block s = (tr, result)" by (cases "parse_block s")
        then have "fetches tr = []" using parse_block_trace[of s] by simp
        with Inr choices True String pb show ?thesis
          by (cases "normalize result") (simp_all add: from_completion_def)
      qed (use Inr choices True in \<open>simp_all add: from_completion_def fetches_simps\<close>)
    qed
  qed
qed

lemma try_body_unconfigured:
  "env = None \<or> env = Some [] \<Longrightarrow>
   try_body env req net = ([], Inl (Error ''LOVABLE_API_KEY not configured''))"
  by (elim disjE) (simp_all add: try_body_def)

lemma try_body_no_image:
  assumes "env = Some k" "k \<noteq> []" "formData req = Inr entries" "map_of entries ''image'' = None"
  shows "try_body env req net = ([], Inr (json_response 400 (ErrorBody ''No image provided'')))"
  using assms by (simp add: try_body_def)

lemma try_body_upstream_failure:
  assumes "env = Some k" "k \<noteq> []" "formData req = Inr entries"
      and "map_of entries ''image'' = Some (FormFile f)"
      and "net (gateway_request k f) = Responded st text" "\<not> ok st"
  shows "try_body env req net =
           ([Fetch (gateway_request k f)],
            if st = 429 then Inr (json_response 429 (ErrorBody ''Rate limit exceeded. Please try again later.''))
            else if st = 402 then Inr (json_response 402 (ErrorBody ''AI credits exhausted. Please add credits to your workspace.''))
            else Inl (Error (''AI Gateway error: '' @ show_nat st)))"
  using assms by (simp add: try_body_def Let_def)

lemma try_body_trace:
  "fst (try_body env req net) = []
   \<or> (\<exists>k f entries tr. env = Some k \<and> k \<noteq> [] \<and> formData req = Inr entries
         \<and> map_of entries ''image'' = Some (FormFile f)
         \<and> fst (try_body env req net) = Fetch (gateway_request k f) # tr \<and> fetches tr = [])"
proof (cases env)
  case None
  then show ?thesis by (simp add: try_body_def)
next
  case (Some k)
  show ?thesis
  proof (cases "k = []")
    case True
    with Some show ?thesis by (simp add: try_body_def)
  next
    case False
    show ?thesis
    proof (cases "formData req")
      case (Inl e)
      with Some False show ?thesis by (simp add: try_body_def)
    next
      case (Inr entries)
      show ?thesis
      proof (cases "map_of entries ''image''")
        case None
        with Some False Inr show ?thesis by (simp add: try_body_def)
      next
        case image: (Some v)
        show ?thesis
        proof (cases v)
          case (FormText t)
          with Some False Inr image show ?thesis by (simp add: try_body_def)
        next
          case (FormFile f)
          let ?c = "gateway_request k f"
          have "\<exists>tr. fst (try_body env req net) = Fetch ?c # tr \<and> fetches tr = []"
          proof (cases "net ?c")
            case (Rejected e)
            with Some False Inr image FormFile show ?thesis
              by (simp add: try_body_def Let_def fetches_simps)
          next
            case (Responded st reply)
            show ?thesis
            proof (cases "ok st")
              case False
              with Responded Some \<open>k \<noteq> []\<close> Inr image FormFile show ?thesis
                by (simp add: try_body_def Let_def fetches_simps)
            next
              case True
              obtain tr r where fc: "from_completion reply = (tr, r)" by (cases "from_completion reply")
              then have "fetches tr = []" using from_completion_trace[of reply] by simp
              with fc True Responded Some \<open>k \<noteq> []\<close> Inr image FormFile show ?thesis
                by (simp add: try_body_def Let_def)
            qed
          qed
          with Some False Inr image FormFile show ?thesis by blast
        qed
      qed
    qed
  qed
qed

lemma handler_not_preflight:
  "req_method req \<noteq> ''OPTIONS'' \<Longrightarrow>
   handler env req net =
     (fst (try_body env req net),
      case snd (try_body env req net) of Inr r \<Rightarrow> r | Inl e \<Rightarrow> json_response 500 (Failure e))"
  by (cases "try_body env req net") (simp add: handler_def split: sum.splits)

lemma handler_preflight:
  "req_method req = ''OPTIONS'' \<Longrightarrow>
   handler env req net = ([], \<lparr>status = 200, headers = corsHeaders, body = Empty\<rparr>)"
  by (simp add: handler_def)

subsection \<open>The category (C2)\<close>

text \<open>
  C2. When the \<^verbatim>\<open>category\<close> of the parsed or fallback-derived result is a string, the
  category of the payload is the member of the closed set
  \<open>{Plastic, Paper, Organic, Metal, Glass}\<close> that equals it up to case, if there is one, and
  the string itself, unchanged, if there is none. So it is always a label of the set or the
  unmodified string.
\<close>

theorem category_normalization:
  assumes "get_prop result ''category'' = Inr (String s)"
      and "normalize result = Inr p"
  shows "(\<forall>cat\<in>set validCategories. toLowerCase cat = toLowerCase s \<longrightarrow> category p = String cat)
       \<and> ((\<forall>cat\<in>set validCategories. toLowerCase cat \<noteq> toLowerCase s) \<longrightarrow> category p = String s)
       \<and> (category p = String s \<or> (\<exists>cat\<in>set validCategories. category p = String cat))
       \<and> set validCategories = {''Plastic'', ''Paper'', ''Organic'', ''Metal'', ''Glass''}"
proof -
  let ?f = "find_first (\<lambda>c. String (toLowerCase c) = String (toLowerCase s)) validCategories"
  from assms have cat: "category p = (case ?f of None \<Rightarrow> String s | Some cat \<Rightarrow> String cat)"
    by (simp add: normalize_def normalizedCategory_String split: sum.splits) auto
  have a: "\<forall>cat\<in>set validCategories. toLowerCase cat = toLowerCase s \<longrightarrow> category p = String cat"
  proof (intro ballI impI)
    fix c assume "c \<in> set validCategories" "toLowerCase c = toLowerCase s"
    then have "?f = Some c" using find_valid_unique[of c] by simp
    with cat show "category p = String c" by simp
  qed
  have b: "(\<forall>cat\<in>set validCategories. toLowerCase cat \<noteq> toLowerCase s) \<longrightarrow> category p = String s"
  proof
    assume "\<forall>cat\<in>set validCategories. toLowerCase cat \<noteq> toLowerCase s"
    then have "?f = None" by (simp add: find_first_None)
    with cat show "category p = String s" by simp
  qed
  have c: "category p = String s \<or> (\<exists>cat\<in>set validCategories. category p = String cat)"
    using a b by blast
  have d: "set validCategories = {''Plastic'', ''Paper'', ''Organic'', ''Metal'', ''Glass''}"
    by (simp add: validCategories_def)
  from a b c d show ?thesis by blast
qed


theorem category_normalization_witness:
  \<open>get_prop (snd (parse_block ''{"category":"plastic","confidence":0.92,"reasoning":"bottle shape"}''))
      ''category'' = Inr (String ''plastic'')
   \<and> normalizer ''{"category":"plastic","confidence":0.92,"reasoning":"bottle shape"}''
       = Inr \<lparr>category = String ''Plastic'', confidence = Fin (23 / 25),
              reasoning = String ''bottle shape''\<rparr>\<close>
proof -
  let ?T = \<open>''{"category":"plastic","confidence":0.92,"reasoning":"bottle shape"}''\<close>
  let ?P = "\<lparr>category = String ''Plastic'', confidence = Fin (23 / 25),
             reasoning = String ''bottle shape''\<rparr>"
  have h1: "get_prop (snd (parse_block ?T)) ''category'' = Inr (String ''plastic'')"
    by code_simp
  have h2: "normalize (snd (parse_block ?T)) = Inr ?P"
    by code_simp
  from category_normalization[OF h1 h2] h1 h2 show ?thesis
    by (simp add: normalizer_def)
qed

subsection \<open>The confidence (C9, C1)\<close>

lemma clamp_falsy: "\<not> truthy c \<Longrightarrow> clamp_confidence c = Inr (Fin (4 / 5))"
  by (simp add: clamp_confidence_def js_or_def Math_max_def Math_min_def)

text \<open>
  C9. When the \<^verbatim>\<open>confidence\<close> of the result is falsy -- the number \<open>0\<close>, \<^verbatim>\<open>null\<close>, \<^verbatim>\<open>false\<close> or
  the empty string -- the confidence of the payload is the default \<open>0.8\<close>, not the clamped
  reported value: \<^verbatim>\<open>result.confidence || 0.8\<close> tests falsiness, not absence.
\<close>

theorem falsy_confidence_defaults:
  assumes "get_prop result ''confidence'' = Inr c"
      and "c \<in> {Number (Fin 0), Null, Bool False, String []}"
      and "normalize result = Inr p"
  shows "confidence p = Fin (4 / 5)"
proof -
  from assms(2) have "\<not> truthy c" by auto
  then have "clamp_confidence c = Inr (Fin (4 / 5))" by (rule clamp_falsy)
  with assms(1,3) show ?thesis
    by (simp add: normalize_def split: sum.splits) auto
qed

theorem falsy_confidence_defaults_witness:
  \<open>get_prop (snd (parse_block ''{"category":"Glass","confidence":0,"reasoning":"clear"}''))
      ''confidence'' = Inr (Number (Fin 0))
   \<and> normalizer ''{"category":"Glass","confidence":0,"reasoning":"clear"}''
       = Inr \<lparr>category = String ''Glass'', confidence = Fin (4 / 5), reasoning = String ''clear''\<rparr>\<close>
proof -
  let ?T = \<open>''{"category":"Glass","confidence":0,"reasoning":"clear"}''\<close>
  let ?P = "\<lparr>category = String ''Glass'', confidence = Fin (4 / 5), reasoning = String ''clear''\<rparr>"
  have h1: "get_prop (snd (parse_block ?T)) ''confidence'' = Inr (Number (Fin 0))"
    by code_simp
  have h2: "Number (Fin 0) \<in> {Number (Fin 0), Null, Bool False, String []}"
    by simp
  have h3: "normalize (snd (parse_block ?T)) = Inr ?P"
    by code_simp
  from falsy_confidence_defaults[OF h1 h2 h3] h1 h3 show ?thesis
    by (simp add: normalizer_def)
qed

text \<open>
  C1 says that the confidence of the payload is a number in \<open>[0, 1]\<close> whatever the model
  reports, a value that is not a number being replaced by \<open>0.8\<close>. The expression
  \<^verbatim>\<open>Math.min(Math.max(result.confidence || 0.8, 0), 1)\<close> replaces only falsy values: the
  string \<^verbatim>\<open>"high"\<close> is truthy, \<^verbatim>\<open>Math.max\<close> converts it to NaN, and NaN is what the
  payload carries (\<^verbatim>\<open>null\<close> once serialised).
\<close>

theorem non_numeric_confidence_not_a_number:
  \<open>normalizer ''{"category":"Glass","confidence":"high","reasoning":"clear"}''
     = Inr \<lparr>category = String ''Glass'', confidence = NaN, reasoning = String ''clear''\<rparr>\<close>
  by code_simp

subsection \<open>Exceptions of the normalizer (C5)\<close>

text \<open>
  C5 says that the normalizer returns a result for every text. The parse block does, but
  the normalization calls \<^verbatim>\<open>result.category?.toLowerCase()\<close>, which guards against a
  missing category only: a category that is an array has no such method, the call throws a
  \<^verbatim>\<open>TypeError\<close>, and the handler answers 500.
\<close>

theorem normalizer_raises:
  \<open>normalizer ''{"category":["Plastic","Metal"],"confidence":0.6,"reasoning":"mixed"}'' = Inl TypeError\<close>
  by code_simp


subsection \<open>The keyword fallback (C4)\<close>

text \<open>
  C4. For every text of the model on which the parse of the whole text fails and the parse
  of the text between the braces fails (or there are no braces), the payload has as
  category the first label of the closed set, in its order, that occurs in the text up to
  case, and \<open>Plastic\<close> when none occurs; its confidence is \<open>0.75\<close> and its reasoning the first
  200 characters of the text. The text is truthy, that is, not empty: it has passed the
  test \<^verbatim>\<open>if (!aiResponse)\<close>, which answers an empty completion with \<^verbatim>\<open>No response from AI\<close>
  before the parse block. The witness is the specification's example, which yields \<open>Metal\<close>.
\<close>

theorem keyword_fallback:
  assumes "truthy (String aiResponse)"
      and "isl (JSON_parse aiResponse)"
      and "\<forall>m. jsonMatch aiResponse = Some m \<longrightarrow> isl (JSON_parse m)"
  shows "\<exists>c. normalizer aiResponse
               = Inr \<lparr>category = String c, confidence = Fin (3 / 4),
                      reasoning = String (take 200 aiResponse)\<rparr>
            \<and> ((\<exists>i<length categories. c = categories ! i
                   \<and> sublist (toLowerCase c) (toLowerCase aiResponse)
                   \<and> (\<forall>j<i. \<not> sublist (toLowerCase (categories ! j)) (toLowerCase aiResponse)))
                \<or> (c = ''Plastic''
                    \<and> (\<forall>cat\<in>set categories. \<not> sublist (toLowerCase cat) (toLowerCase aiResponse))))"
proof -
  obtain c where c: "js_or (foundCategory aiResponse) (String ''Plastic'') = String c"
    "c \<in> set validCategories"
    "(\<exists>i<length categories. c = categories ! i
            \<and> sublist (toLowerCase c) (toLowerCase aiResponse)
            \<and> (\<forall>j<i. \<not> sublist (toLowerCase (categories ! j)) (toLowerCase aiResponse)))
         \<or> (c = ''Plastic'' \<and> (\<forall>cat\<in>set categories. \<not> sublist (toLowerCase cat) (toLowerCase aiResponse)))"
    by (rule fallback_category)
  from assms(1) have r: "take 200 aiResponse \<noteq> []" by simp
  have "normalizer aiResponse = normalize (fallback aiResponse)"
    by (simp add: normalizer_def parse_block_fallback[OF assms(2,3)])
  also have "\<dots> = Inr \<lparr>category = String c, confidence = Fin (3 / 4),
                      reasoning = String (take 200 aiResponse)\<rparr>"
    unfolding fallback_def c(1) substring0_def by (rule normalize_fallback_shape[OF c(2) r])
  finally show ?thesis using c(3) by (intro exI[of _ c] conjI)
qed

theorem keyword_fallback_witness:
  "truthy (String ''I think this is made of METAL and recyclable'')
   \<and> isl (JSON_parse ''I think this is made of METAL and recyclable'')
   \<and> jsonMatch ''I think this is made of METAL and recyclable'' = None
   \<and> normalizer ''I think this is made of METAL and recyclable''
       = Inr \<lparr>category = String ''Metal'', confidence = Fin (3 / 4),
              reasoning = String ''I think this is made of METAL and recyclable''\<rparr>"
proof -
  let ?T = "''I think this is made of METAL and recyclable''"
  have h1: "truthy (String ?T)" by simp
  have h2: "isl (JSON_parse ?T)" by code_simp
  have h3: "jsonMatch ?T = None" by code_simp
  then have h3': "\<forall>m. jsonMatch ?T = Some m \<longrightarrow> isl (JSON_parse m)" by simp
  have h4: "normalizer ?T = Inr \<lparr>category = String ''Metal'', confidence = Fin (3 / 4),
              reasoning = String ?T\<rparr>"
    by code_simp
  from keyword_fallback[OF h1 h2 h3'] h1 h2 h3 h4 show ?thesis by simp
qed


subsection \<open>The order of the tiers (C3)\<close>

text \<open>
  C3, as the code has it. The parse block looks for the braces first. When the text has an
  opening brace with a closing brace after it, the only text handed to \<^verbatim>\<open>JSON.parse\<close> is the
  one from the first opening brace to the last closing brace, and the whole text is never
  parsed; only when there is no such pair is the whole text parsed. The keyword fallback
  is used when that one parse fails. (By \<open>brace_decomposition\<close> every text with a pair of
  braces has the decomposition of the first case.)
\<close>

theorem parse_order:
  "(\<forall>pre mid post.
       aiResponse = pre @ CHR ''{'' # mid @ CHR ''}'' # post
       \<and> CHR ''{'' \<notin> set pre \<and> CHR ''}'' \<notin> set post \<longrightarrow>
       parse_block aiResponse
         = ([Parse (CHR ''{'' # mid @ [CHR ''}''])],
            case JSON_parse (CHR ''{'' # mid @ [CHR ''}'']) of
              Inr v \<Rightarrow> v
            | Inl parseError \<Rightarrow> fallback aiResponse))
   \<and> ((\<forall>pre mid post. aiResponse \<noteq> pre @ CHR ''{'' # mid @ CHR ''}'' # post) \<longrightarrow>
       parse_block aiResponse
         = ([Parse aiResponse],
            case JSON_parse aiResponse of
              Inr v \<Rightarrow> v
            | Inl parseError \<Rightarrow> fallback aiResponse))"
proof (intro conjI allI impI)
  fix pre mid post
  assume a: "aiResponse = pre @ CHR ''{'' # mid @ CHR ''}'' # post
             \<and> CHR ''{'' \<notin> set pre \<and> CHR ''}'' \<notin> set post"
  then have "jsonMatch aiResponse = Some (CHR ''{'' # mid @ [CHR ''}''])"
    using jsonMatch_first_last[of pre post mid] by simp
  then show "parse_block aiResponse
         = ([Parse (CHR ''{'' # mid @ [CHR ''}''])],
            case JSON_parse (CHR ''{'' # mid @ [CHR ''}'']) of
              Inr v \<Rightarrow> v
            | Inl parseError \<Rightarrow> fallback aiResponse)"
    by (simp add: parse_block_def try_parse_def split: sum.splits)
next
  assume "\<forall>pre mid post. aiResponse \<noteq> pre @ CHR ''{'' # mid @ CHR ''}'' # post"
  then have "jsonMatch aiResponse = None" by (rule jsonMatch_no_braces)
  then show "parse_block aiResponse
         = ([Parse aiResponse],
            case JSON_parse aiResponse of
              Inr v \<Rightarrow> v
            | Inl parseError \<Rightarrow> fallback aiResponse)"
    by (simp add: parse_block_def try_parse_def split: sum.splits)
qed

theorem parse_order_witness:
  \<open>parse_block ''Sure! {"category":"Glass"} Bye''
     = ([Parse ''{"category":"Glass"}''], Object [(''category'', String ''Glass'')])
   \<and> parse_block ''It is glass'' = ([Parse ''It is glass''], fallback ''It is glass'')\<close>
proof -
  let ?pre = "''Sure! ''" and ?mid = \<open>''"category":"Glass"''\<close> and ?post = "'' Bye''"
  have d: \<open>''Sure! {"category":"Glass"} Bye'' = ?pre @ CHR ''{'' # ?mid @ CHR ''}'' # ?post
           \<and> CHR ''{'' \<notin> set ?pre \<and> CHR ''}'' \<notin> set ?post\<close>
    by simp
  have p: \<open>JSON_parse (CHR ''{'' # ?mid @ [CHR ''}'']) = Inr (Object [(''category'', String ''Glass'')])\<close>
    by code_simp
  from parse_order[of \<open>''Sure! {"category":"Glass"} Bye''\<close>] d
  have \<open>parse_block ''Sure! {"category":"Glass"} Bye''
         = ([Parse (CHR ''{'' # ?mid @ [CHR ''}''])],
            case JSON_parse (CHR ''{'' # ?mid @ [CHR ''}'']) of
              Inr v \<Rightarrow> v
            | Inl parseError \<Rightarrow> fallback ''Sure! {"category":"Glass"} Bye'')\<close>
    by blast
  then have first: \<open>parse_block ''Sure! {"category":"Glass"} Bye''
     = ([Parse ''{"category":"Glass"}''], Object [(''category'', String ''Glass'')])\<close>
    unfolding p by simp
  have n: "\<forall>pre mid post. ''It is glass'' \<noteq> pre @ CHR ''{'' # mid @ CHR ''}'' # post"
    by (rule no_open_brace) simp
  have q: "JSON_parse ''It is glass'' = Inl SyntaxError"
    by code_simp
  from parse_order[of "''It is glass''"] n
  have "parse_block ''It is glass''
         = ([Parse ''It is glass''],
            case JSON_parse ''It is glass'' of
              Inr v \<Rightarrow> v
            | Inl parseError \<Rightarrow> fallback ''It is glass'')"
    by (rule conjunct2[THEN mp])
  then have second: "parse_block ''It is glass'' = ([Parse ''It is glass''], fallback ''It is glass'')"
    unfolding q by simp
  from first second show ?thesis by (rule conjI)
qed

text \<open>
  C3 as the specification words it has the parse of the whole text first, and the search
  for the braces only after that parse failed. On \<^verbatim>\<open>[{"category":"Glass"}]\<close> the whole text
  parses, to an array; the code never parses it, but takes the object between the braces.
\<close>

theorem strict_parse_not_first:
  \<open>JSON_parse ''[{"category":"Glass"}]'' = Inr (Array [Object [(''category'', String ''Glass'')]])
   \<and> spec_parse_block ''[{"category":"Glass"}]''
       = ([Parse ''[{"category":"Glass"}]''], Array [Object [(''category'', String ''Glass'')]])
   \<and> parse_block ''[{"category":"Glass"}]''
       = ([Parse ''{"category":"Glass"}''], Object [(''category'', String ''Glass'')])
   \<and> parse_block ''[{"category":"Glass"}]'' \<noteq> spec_parse_block ''[{"category":"Glass"}]''\<close>
proof -
  have 1: \<open>JSON_parse ''[{"category":"Glass"}]'' = Inr (Array [Object [(''category'', String ''Glass'')]])\<close>
    by code_simp
  have 2: \<open>spec_parse_block ''[{"category":"Glass"}]''
       = ([Parse ''[{"category":"Glass"}]''], Array [Object [(''category'', String ''Glass'')]])\<close>
    by code_simp
  have 3: \<open>parse_block ''[{"category":"Glass"}]''
       = ([Parse ''{"category":"Glass"}''], Object [(''category'', String ''Glass'')])\<close>
    by code_simp
  from 1 2 3 show ?thesis by simp
qed



subsection \<open>Failures of the gateway (C6)\<close>

text \<open>
  C6. Whenever the handler has called the gateway and the gateway has answered with a
  status outside 200--299, that call is the only one the handler makes (no retry), and the
  response is determined by the status: 429 gives a 429 with the rate-limit message, 402
  gives a 402 with the credits message, any other status gives the 500 that the top-level
  \<^verbatim>\<open>catch\<close> builds from \<^verbatim>\<open>AI Gateway error: <status>\<close>.
\<close>

theorem upstream_failure_mapping:
  assumes "handler env req net = (tr, resp)"
      and "Fetch call \<in> set tr"
      and "net call = Responded st text"
      and "\<not> ok st"
  shows "fetches tr = [call]
       \<and> resp = (if st = 429 then
                    json_response 429 (ErrorBody ''Rate limit exceeded. Please try again later.'')
                  else if st = 402 then
                    json_response 402 (ErrorBody ''AI credits exhausted. Please add credits to your workspace.'')
                  else json_response 500 (Failure (Error (''AI Gateway error: '' @ show_nat st))))
       \<and> status resp = (if st = 429 then 429 else if st = 402 then 402 else 500)
       \<and> body resp = (if st = 429 then
                         ErrorBody ''Rate limit exceeded. Please try again later.''
                       else if st = 402 then
                         ErrorBody ''AI credits exhausted. Please add credits to your workspace.''
                       else Failure (Error (''AI Gateway error: '' @ show_nat st)))"
proof -
  have np: "req_method req \<noteq> ''OPTIONS''"
  proof
    assume "req_method req = ''OPTIONS''"
    from handler_preflight[OF this] assms(1) have "tr = []" by simp
    with assms(2) show False by simp
  qed
  from handler_not_preflight[OF np] assms(1)
  have tr: "tr = fst (try_body env req net)"
    and resp: "resp = (case snd (try_body env req net) of Inr r \<Rightarrow> r | Inl e \<Rightarrow> json_response 500 (Failure e))"
    by simp_all
  from assms(2) tr have "fst (try_body env req net) \<noteq> []" by auto
  with try_body_trace[of env req net] obtain k f entries tr' where
    r: "env = Some k" "k \<noteq> []" "formData req = Inr entries" "map_of entries ''image'' = Some (FormFile f)"
       "fst (try_body env req net) = Fetch (gateway_request k f) # tr'" "fetches tr' = []"
    by blast
  have "call \<in> set (fetches tr)" using assms(2) by (rule fetch_in_fetches)
  with tr r(5,6) have c: "call = gateway_request k f" by (simp add: fetches_simps)
  from try_body_upstream_failure[where net = net, OF r(1-4) assms(3)[unfolded c] assms(4)]
  have tb: "try_body env req net =
           ([Fetch call],
            if st = 429 then Inr (json_response 429 (ErrorBody ''Rate limit exceeded. Please try again later.''))
            else if st = 402 then Inr (json_response 402 (ErrorBody ''AI credits exhausted. Please add credits to your workspace.''))
            else Inl (Error (''AI Gateway error: '' @ show_nat st)))"
    unfolding c .
  have 1: "fetches tr = [call]" unfolding tr tb by (simp add: fetches_simps)
  have 2: "resp = (if st = 429 then
                    json_response 429 (ErrorBody ''Rate limit exceeded. Please try again later.'')
                  else if st = 402 then
                    json_response 402 (ErrorBody ''AI credits exhausted. Please add credits to your workspace.'')
                  else json_response 500 (Failure (Error (''AI Gateway error: '' @ show_nat st))))"
    unfolding resp tb by simp
  have 3: "status resp = (if st = 429 then 429 else if st = 402 then 402 else 500)"
    unfolding 2 by (simp add: json_response_def)
  have 4: "body resp = (if st = 429 then
                         ErrorBody ''Rate limit exceeded. Please try again later.''
                       else if st = 402 then
                         ErrorBody ''AI credits exhausted. Please add credits to your workspace.''
                       else Failure (Error (''AI Gateway error: '' @ show_nat st)))"
    unfolding 2 by (simp add: json_response_def)
  from 1 2 3 4 show ?thesis by (intro conjI)
qed


theorem upstream_failure_mapping_witness:
  "handler (Some ''secret'') upload (gateway_status 429)
     = ([Fetch (gateway_request ''secret'' sample_image)],
        json_response 429 (ErrorBody ''Rate limit exceeded. Please try again later.''))
   \<and> handler (Some ''secret'') upload (gateway_status 503)
     = ([Fetch (gateway_request ''secret'' sample_image)],
        json_response 500 (Failure (Error ''AI Gateway error: 503'')))
   \<and> status (snd (handler (Some ''secret'') upload (gateway_status 429))) = 429
   \<and> body (snd (handler (Some ''secret'') upload (gateway_status 429)))
       = ErrorBody ''Rate limit exceeded. Please try again later.''
   \<and> status (snd (handler (Some ''secret'') upload (gateway_status 503))) = 500
   \<and> body (snd (handler (Some ''secret'') upload (gateway_status 503)))
       = Failure (Error ''AI Gateway error: 503'')
   \<and> fetches (fst (handler (Some ''secret'') upload (gateway_status 429)))
       = [gateway_request ''secret'' sample_image]
   \<and> fetches (fst (handler (Some ''secret'') upload (gateway_status 503)))
       = [gateway_request ''secret'' sample_image]"
proof -
  let ?c = "gateway_request ''secret'' sample_image"
  obtain tr resp where h1: "handler (Some ''secret'') upload (gateway_status 429) = (tr, resp)"
    by (cases "handler (Some ''secret'') upload (gateway_status 429)")
  have t1: "fst (handler (Some ''secret'') upload (gateway_status 429)) = [Fetch ?c]"
    by code_simp
  with h1 have h2: "Fetch ?c \<in> set tr" by simp
  have h3: "gateway_status 429 ?c = Responded 429 ''upstream says no''"
    by (simp add: gateway_status_def)
  have h4: "\<not> ok 429" by (simp add: ok_def)
  note m1 = upstream_failure_mapping[OF h1 h2 h3 h4]
  from m1 t1 h1
  have a: "handler (Some ''secret'') upload (gateway_status 429)
     = ([Fetch ?c], json_response 429 (ErrorBody ''Rate limit exceeded. Please try again later.''))"
    by simp
  have sb1: "status resp = 429
     \<and> body resp = ErrorBody ''Rate limit exceeded. Please try again later.''"
    using m1[THEN conjunct2, THEN conjunct2] by simp
  have f1: "fetches tr = [?c]"
    using m1[THEN conjunct1] .
  have a': "status (snd (handler (Some ''secret'') upload (gateway_status 429))) = 429
     \<and> body (snd (handler (Some ''secret'') upload (gateway_status 429)))
         = ErrorBody ''Rate limit exceeded. Please try again later.''
     \<and> fetches (fst (handler (Some ''secret'') upload (gateway_status 429))) = [?c]"
    unfolding h1 using sb1 f1 by simp
  obtain tr' resp' where g1: "handler (Some ''secret'') upload (gateway_status 503) = (tr', resp')"
    by (cases "handler (Some ''secret'') upload (gateway_status 503)")
  have u1: "fst (handler (Some ''secret'') upload (gateway_status 503)) = [Fetch ?c]"
    by code_simp
  with g1 have g2: "Fetch ?c \<in> set tr'" by simp
  have g3: "gateway_status 503 ?c = Responded 503 ''upstream says no''"
    by (simp add: gateway_status_def)
  have g4: "\<not> ok 503" by (simp add: ok_def)
  have sn: "show_nat 503 = ''503''" by code_simp
  note m2 = upstream_failure_mapping[OF g1 g2 g3 g4]
  from m2 u1 g1
  have b: "handler (Some ''secret'') upload (gateway_status 503)
     = ([Fetch ?c], json_response 500 (Failure (Error ''AI Gateway error: 503'')))"
    by (simp add: sn)
  have sb2: "status resp' = 500
     \<and> body resp' = Failure (Error ''AI Gateway error: 503'')"
    using m2[THEN conjunct2, THEN conjunct2] by (simp add: sn)
  have f2: "fetches tr' = [?c]"
    using m2[THEN conjunct1] .
  have b': "status (snd (handler (Some ''secret'') upload (gateway_status 503))) = 500
     \<and> body (snd (handler (Some ''secret'') upload (gateway_status 503)))
         = Failure (Error ''AI Gateway error: 503'')
     \<and> fetches (fst (handler (Some ''secret'') upload (gateway_status 503))) = [?c]"
    unfolding g1 using sb2 f2 by simp
  from a b a' b' show ?thesis by (intro conjI) (elim conjE, assumption)+
qed

subsection \<open>The missing credential (C7, C10)\<close>

text \<open>
  C7, as the code has it. When \<^verbatim>\<open>LOVABLE_API_KEY\<close> is absent (or empty), every request that is
  not a preflight is answered with a 500 that carries the configuration error, whatever
  the request contains and whatever the gateway would do, and the gateway is not called.
\<close>

theorem missing_credential_fails_fast:
  assumes "env = None \<or> env = Some []"
      and "req_method req \<noteq> ''OPTIONS''"
  shows "handler env req net
           = ([], json_response 500 (Failure (Error ''LOVABLE_API_KEY not configured'')))
       \<and> fetches (fst (handler env req net)) = []
       \<and> status (snd (handler env req net)) = 500
       \<and> body (snd (handler env req net)) = Failure (Error ''LOVABLE_API_KEY not configured'')"
proof -
  have "handler env req net
           = ([], json_response 500 (Failure (Error ''LOVABLE_API_KEY not configured'')))"
    unfolding handler_not_preflight[OF assms(2)] try_body_unconfigured[OF assms(1)] by simp
  then show ?thesis by (simp add: fetches_simps json_response_def)
qed

theorem missing_credential_fails_fast_witness:
  "req_method upload \<noteq> ''OPTIONS''
   \<and> handler None upload (gateway_status 200)
       = ([], json_response 500 (Failure (Error ''LOVABLE_API_KEY not configured'')))
   \<and> status (snd (handler None upload (gateway_status 200))) = 500
   \<and> body (snd (handler None upload (gateway_status 200)))
       = Failure (Error ''LOVABLE_API_KEY not configured'')
   \<and> fetches (fst (handler None upload (gateway_status 200))) = []"
proof -
  have h1: "None = None \<or> None = Some ([] :: string)" by simp
  have h2: "req_method upload \<noteq> ''OPTIONS''" by (simp add: upload_def)
  from missing_credential_fails_fast[OF h1 h2, of "gateway_status 200"] h2 show ?thesis
    by (intro conjI) (elim conjE, assumption)+
qed

text \<open>
  C7 speaks of every request. The preflight is answered before the credential is read: an
  \<^verbatim>\<open>OPTIONS\<close> request gets the empty 200 also when the credential is absent.
\<close>

theorem preflight_without_credential:
  "status (snd (handler None preflight gateway_down)) = 200
   \<and> body (snd (handler None preflight gateway_down)) = Empty"
  by (simp add: handler_def preflight_def)

text \<open>
  C10. The credential is checked before the image field: without a credential every
  request that is not a preflight, also one without an image field, gets the 500 with the
  configuration error; and a response with status 400 is only ever given when the
  credential is configured.
\<close>

theorem credential_check_precedes_image_check:
  "((env = None \<or> env = Some []) \<and> req_method req \<noteq> ''OPTIONS'' \<longrightarrow>
      snd (handler env req net)
        = json_response 500 (Failure (Error ''LOVABLE_API_KEY not configured''))
      \<and> status (snd (handler env req net)) = 500
      \<and> body (snd (handler env req net)) = Failure (Error ''LOVABLE_API_KEY not configured''))
   \<and> (status (snd (handler env req net)) = 400 \<longrightarrow> (\<exists>k. env = Some k \<and> k \<noteq> []))"
proof (rule conjI; rule impI)
  assume a: "(env = None \<or> env = Some []) \<and> req_method req \<noteq> ''OPTIONS''"
  then have "try_body env req net = ([], Inl (Error ''LOVABLE_API_KEY not configured''))"
    by (intro try_body_unconfigured) simp
  with a have r: "snd (handler env req net)
        = json_response 500 (Failure (Error ''LOVABLE_API_KEY not configured''))"
    by (simp add: handler_not_preflight)
  then show "snd (handler env req net)
        = json_response 500 (Failure (Error ''LOVABLE_API_KEY not configured''))
      \<and> status (snd (handler env req net)) = 500
      \<and> body (snd (handler env req net)) = Failure (Error ''LOVABLE_API_KEY not configured'')"
    by (simp add: json_response_def)
next
  assume s: "status (snd (handler env req net)) = 400"
  show "\<exists>k. env = Some k \<and> k \<noteq> []"
  proof (rule ccontr)
    assume "\<not> (\<exists>k. env = Some k \<and> k \<noteq> [])"
    then have u: "env = None \<or> env = Some []" by (cases env) simp_all
    show False
    proof (cases "req_method req = ''OPTIONS''")
      case True
      from handler_preflight[OF True] s show False by simp
    next
      case False
      from try_body_unconfigured[OF u] handler_not_preflight[OF False] s
      show False by (simp add: json_response_def)
    qed
  qed
qed

theorem credential_check_precedes_image_check_witness:
  "snd (handler None no_image_request gateway_down)
     = json_response 500 (Failure (Error ''LOVABLE_API_KEY not configured''))
   \<and> status (snd (handler (Some ''secret'') no_image_request gateway_down)) = 400
   \<and> ''secret'' \<noteq> []
   \<and> status (snd (handler None no_image_request gateway_down)) = 500
   \<and> body (snd (handler None no_image_request gateway_down))
       = Failure (Error ''LOVABLE_API_KEY not configured'')"
proof -
  have h: "(None = None \<or> None = Some ([] :: string)) \<and> req_method no_image_request \<noteq> ''OPTIONS''"
    by (simp add: no_image_request_def)
  note first = credential_check_precedes_image_check[of None no_image_request gateway_down,
      THEN conjunct1, THEN mp, OF h]
  from first
  have 1: "snd (handler None no_image_request gateway_down)
     = json_response 500 (Failure (Error ''LOVABLE_API_KEY not configured''))"
    by (rule conjunct1)
  from first
  have 4: "status (snd (handler None no_image_request gateway_down)) = 500
     \<and> body (snd (handler None no_image_request gateway_down))
         = Failure (Error ''LOVABLE_API_KEY not configured'')"
    by (rule conjunct2)
  have 2: "status (snd (handler (Some ''secret'') no_image_request gateway_down)) = 400"
    by (simp add: handler_def try_body_def no_image_request_def json_response_def)
  from credential_check_precedes_image_check[of "Some ''secret''" no_image_request gateway_down] 2
  have "\<exists>k. Some ''secret'' = Some k \<and> k \<noteq> []" by blast
  then have 3: "''secret'' \<noteq> []" by simp
  from 1 2 3 4 show ?thesis by (intro conjI) (elim conjE, assumption)+
qed

subsection \<open>The missing image (C8)\<close>

text \<open>
  C8, as the code has it. When the credential is configured and the request is not a
  preflight, a form without an \<^verbatim>\<open>image\<close> field is answered with a 400 whose body is
  \<^verbatim>\<open>{error: "No image provided"}\<close>, and the gateway is not called.
\<close>

theorem no_image_provided:
  assumes "env = Some k" and "k \<noteq> []"
      and "req_method req \<noteq> ''OPTIONS''"
      and "formData req = Inr entries" and "map_of entries ''image'' = None"
  shows "handler env req net = ([], json_response 400 (ErrorBody ''No image provided''))
       \<and> status (snd (handler env req net)) = 400
       \<and> body (snd (handler env req net)) = ErrorBody ''No image provided''
       \<and> fetches (fst (handler env req net)) = []"
proof -
  have "handler env req net = ([], json_response 400 (ErrorBody ''No image provided''))"
    unfolding handler_not_preflight[OF assms(3)] try_body_no_image[OF assms(1,2,4,5)] by simp
  then show ?thesis by (simp add: fetches_simps json_response_def)
qed

theorem no_image_provided_witness:
  "req_method no_image_request \<noteq> ''OPTIONS''
   \<and> formData no_image_request = Inr []
   \<and> handler (Some ''secret'') no_image_request gateway_down
       = ([], json_response 400 (ErrorBody ''No image provided''))
   \<and> status (snd (handler (Some ''secret'') no_image_request gateway_down)) = 400
   \<and> body (snd (handler (Some ''secret'') no_image_request gateway_down))
       = ErrorBody ''No image provided''
   \<and> fetches (fst (handler (Some ''secret'') no_image_request gateway_down)) = []"
proof -
  have h1: "Some ''secret'' = Some ''secret''" by simp
  have h2: "''secret'' \<noteq> []" by simp
  have h3: "req_method no_image_request \<noteq> ''OPTIONS''" by (simp add: no_image_request_def)
  have h4: "formData no_image_request = Inr []" by (simp add: no_image_request_def)
  have h5: "map_of ([] :: (string \<times> form_value) list) ''image'' = None" by simp
  from no_image_provided[OF h1 h2 h3 h4 h5, of gateway_down] h3 h4 show ?thesis
    by (intro conjI) (elim conjE, assumption)+
qed

text \<open>
  C8 does not mention the credential. Without it the same request is answered with the 500
  of the configuration error, since that check comes first.
\<close>

theorem no_image_without_credential:
  "formData no_image_request = Inr []
   \<and> handler None no_image_request gateway_down
       = ([], json_response 500 (Failure (Error ''LOVABLE_API_KEY not configured'')))
   \<and> status (snd (handler None no_image_request gateway_down)) = 500
   \<and> body (snd (handler None no_image_request gateway_down))
       = Failure (Error ''LOVABLE_API_KEY not configured'')"
  by (simp add: handler_def try_body_def no_image_request_def json_response_def)


end
